theory Spec2Isabelle
  imports Main "HOL-Library.Log_Nat" "HOL-Library.Sublist"
begin

section \<open>The similarity matcher of the NAMASTE / ICD-11 terminology service\<close>

text \<open>
  This theory embeds the class \<open>SimilarityMatcher\<close> (the text normaliser, the similarity
  scorer, the searchable-text builder, the match ranker, the mapping generator and its
  writes to the table \<open>concept_mappings\<close>) and proves the properties its specification
  states about it.

  Conventions of the embedding:
  \<^item> a JavaScript string is a \<open>string\<close>; a \<open>char\<close> stands for the UTF-16 code unit of the
    same number, so the texts covered are those over the code units 0 to 255 (Latin-1);
  \<^item> a value that may be \<open>null\<close> or \<open>undefined\<close> is an \<open>option\<close>, with \<open>None\<close> for both;
  \<^item> a JavaScript number is the rational it denotes, and every arithmetic operation
    rounds its exact result to the nearest IEEE-754 binary64 value (section \<open>Numbers\<close>);
  \<^item> the four metrics of the library \<open>fuzzball\<close> are a parameter of the model;
  \<^item> a rejected promise or a thrown exception is the \<open>Inl\<close> branch of a sum.
\<close>

subsection \<open>Characters\<close>

text \<open>
  The classes of the regular expressions \<open>\s\<close> and \<open>\w\<close>. Among the code units below 256
  the white space of ECMAScript is TAB, LF, VT, FF, CR, SPACE and NO-BREAK SPACE; a word
  character is an ASCII letter, an ASCII digit or the underscore.
\<close>

definition is_space :: "char \<Rightarrow> bool" where
  "is_space c = (of_char c \<in> {9, 10, 11, 12, 13, 32, 160 :: nat})"

definition is_word :: "char \<Rightarrow> bool" where
  "is_word c = (let n = of_char c :: nat in
     (48 \<le> n \<and> n \<le> 57) \<or> (65 \<le> n \<and> n \<le> 90) \<or> n = 95 \<or> (97 \<le> n \<and> n \<le> 122))"

text \<open>
  \<open>String.prototype.toLowerCase\<close>, one code unit at a time: the letters A to Z, and the
  Latin-1 capitals U+00C0 to U+00DE without the multiplication sign U+00D7, move up by 32.
\<close>

definition lower_char :: "char \<Rightarrow> char" where
  "lower_char c = (let n = of_char c :: nat in
     if (65 \<le> n \<and> n \<le> 90) \<or> (192 \<le> n \<and> n \<le> 222 \<and> n \<noteq> 215)
     then char_of (n + 32) else c)"

definition toLowerCase :: "string \<Rightarrow> string" where
  "toLowerCase s = map lower_char s"

subsection \<open>normalizeText\<close>

text \<open>\<open>.replace(/[^\w\s]/g, ' ')\<close>: every match is one character, replaced by one space.\<close>

definition replace_punct :: "string \<Rightarrow> string" where
  "replace_punct s = map (\<lambda>c. if \<not> is_word c \<and> \<not> is_space c then CHR '' '' else c) s"

text \<open>
  \<open>.replace(/\s+/g, ' ')\<close>: scanning from the left, a match starts at a white-space
  character, takes the longest run of white space there, and is replaced by one space.
\<close>

function replace_spaces :: "string \<Rightarrow> string" where
  "replace_spaces [] = []"
| "replace_spaces (c # cs) =
     (if is_space c then CHR '' '' # replace_spaces (dropWhile is_space cs)
      else c # replace_spaces cs)"
  by pat_completeness auto
termination
  by (relation "measure length") (auto simp: length_dropWhile_le le_imp_less_Suc)

text \<open>\<open>String.prototype.trim\<close>: the white space at both ends is removed.\<close>

definition rtrim :: "string \<Rightarrow> string" where
  "rtrim s = rev (dropWhile is_space (rev s))"

definition trim :: "string \<Rightarrow> string" where
  "trim s = rtrim (dropWhile is_space s)"

text \<open>
  \<open>normalizeText(text)\<close>. The guard \<open>!text\<close> holds for \<open>null\<close>, \<open>undefined\<close> and the empty
  string.
\<close>

definition normalizeText :: "string option \<Rightarrow> string" where
  "normalizeText text =
     (case text of
        None \<Rightarrow> []
      | Some t \<Rightarrow>
          if t = [] then []
          else trim (replace_spaces (replace_punct (toLowerCase t))))"

text \<open>
  What the normal form is, said without the pipeline: the maximal runs of word characters
  of the lower-cased text, joined by single spaces.
\<close>

function word_runs :: "string \<Rightarrow> string list" where
  "word_runs [] = []"
| "word_runs (c # cs) =
     (if is_word c then (c # takeWhile is_word cs) # word_runs (dropWhile is_word cs)
      else word_runs cs)"
  by pat_completeness auto
termination
  by (relation "measure length") (auto simp: length_dropWhile_le le_imp_less_Suc)

fun join_spaces :: "string list \<Rightarrow> string" where
  "join_spaces [] = []"
| "join_spaces [w] = w"
| "join_spaces (w # v # ws) = w @ CHR '' '' # join_spaces (v # ws)"

subsection \<open>Numbers\<close>

text \<open>
  A JavaScript number is an IEEE-754 binary64 value. The model keeps the rational such a
  value denotes; \<open>binary64\<close> rounds an exact result to the nearest value with a 53-bit
  significand and an exponent of at least \<open>-1074\<close>, ties to the even significand. The
  numbers that arise here are quotients by 100, products with the weights and sums of
  four such products, so no operation overflows and none yields \<open>NaN\<close>.
\<close>

type_synonym number = rat

definition round_half_even :: "rat \<Rightarrow> int" where
  "round_half_even y =
     (let f = \<lfloor>y\<rfloor>; r = y - of_int f in
      if r < 1 / 2 then f else if 1 / 2 < r then f + 1 else if even f then f else f + 1)"

text \<open>The binary exponent of a positive rational: \<open>2 powi ilog2 x \<le> x < 2 powi (ilog2 x + 1)\<close>.\<close>

definition ilog2 :: "rat \<Rightarrow> int" where
  "ilog2 x = (if 1 \<le> x then bitlen \<lfloor>x\<rfloor> - 1 else - bitlen (\<lceil>1 / x\<rceil> - 1))"

definition ulp_exp :: "rat \<Rightarrow> int" where
  "ulp_exp x = max (ilog2 x - 52) (- 1074)"

definition round_pos :: "rat \<Rightarrow> rat" where
  "round_pos x = of_int (round_half_even (x / 2 powi ulp_exp x)) * 2 powi ulp_exp x"

definition binary64 :: "rat \<Rightarrow> number" where
  "binary64 x = (if x = 0 then 0 else if 0 < x then round_pos x else - round_pos (- x))"

text \<open>A value on the grid of the subnormal numbers; every binary64 value is.\<close>

definition on_grid :: "rat \<Rightarrow> bool" where
  "on_grid x = (\<exists>n :: int. x = of_int n * 2 powi (- 1074))"

text \<open>The operators \<open>+\<close>, \<open>-\<close>, \<open>*\<close> and \<open>/\<close> (the last one is only used with the divisor 100).\<close>

definition num_add :: "number \<Rightarrow> number \<Rightarrow> number" where
  "num_add x y = binary64 (x + y)"

definition num_sub :: "number \<Rightarrow> number \<Rightarrow> number" where
  "num_sub x y = binary64 (x - y)"

definition num_mul :: "number \<Rightarrow> number \<Rightarrow> number" where
  "num_mul x y = binary64 (x * y)"

definition num_div :: "number \<Rightarrow> number \<Rightarrow> number" where
  "num_div x y = binary64 (x / y)"

text \<open>The literals \<open>0.6\<close> and \<open>0.8\<close> that the constructor stores in the matcher.\<close>

definition similarityThreshold :: number where
  "similarityThreshold = binary64 (6 / 10)"

definition highConfidenceThreshold :: number where
  "highConfidenceThreshold = binary64 (8 / 10)"

subsection \<open>The similarity scorer\<close>

text \<open>
  The library \<open>fuzzball\<close> is not part of the repository: its four metrics are a parameter.
  Each takes two strings and returns an integer score (0 to 100 in the library).
\<close>

record fuzzball =
  fuzz_ratio :: "string \<Rightarrow> string \<Rightarrow> nat"
  fuzz_partial_ratio :: "string \<Rightarrow> string \<Rightarrow> nat"
  fuzz_token_sort_ratio :: "string \<Rightarrow> string \<Rightarrow> nat"
  fuzz_token_set_ratio :: "string \<Rightarrow> string \<Rightarrow> nat"

text \<open>\<open>!text\<close> for a text that is a string, \<open>null\<close> or \<open>undefined\<close>.\<close>

definition falsy :: "string option \<Rightarrow> bool" where
  "falsy text = (text = None \<or> text = Some [])"

definition calculateSimilarity ::
  "fuzzball \<Rightarrow> string option \<Rightarrow> string option \<Rightarrow> string \<Rightarrow> number" where
  "calculateSimilarity fz text1 text2 method =
     (if falsy text1 \<or> falsy text2 then 0
      else
        let normalizedText1 = normalizeText text1;
            normalizedText2 = normalizeText text2
        in
          if normalizedText1 = [] \<or> normalizedText2 = [] then 0
          else if method = ''ratio'' then
            num_div (of_nat (fuzz_ratio fz normalizedText1 normalizedText2)) 100
          else if method = ''partial_ratio'' then
            num_div (of_nat (fuzz_partial_ratio fz normalizedText1 normalizedText2)) 100
          else if method = ''token_sort_ratio'' then
            num_div (of_nat (fuzz_token_sort_ratio fz normalizedText1 normalizedText2)) 100
          else if method = ''token_set_ratio'' then
            num_div (of_nat (fuzz_token_set_ratio fz normalizedText1 normalizedText2)) 100
          else
            num_div (of_nat (fuzz_ratio fz normalizedText1 normalizedText2)) 100)"

record individual =
  ratio :: number
  partial_ratio :: number
  token_sort_ratio :: number
  token_set_ratio :: number

record similarity_result =
  composite :: number
  individual :: individual

definition methods :: "string list" where
  "methods = [''ratio'', ''partial_ratio'', ''token_sort_ratio'', ''token_set_ratio'']"

definition weights :: "number list" where
  "weights = [binary64 (4 / 10), binary64 (2 / 10), binary64 (2 / 10), binary64 (2 / 10)]"

text \<open>
  \<open>scores.reduce((sum, score, index) => sum + (score * weights[index]), 0)\<close>: both arrays
  have four entries, so the reduction runs over the pairs of \<open>zip scores weights\<close>.
\<close>

definition calculateCompositeSimilarity ::
  "fuzzball \<Rightarrow> string option \<Rightarrow> string option \<Rightarrow> similarity_result" where
  "calculateCompositeSimilarity fz text1 text2 =
     (let scores = map (\<lambda>method. calculateSimilarity fz text1 text2 method) methods;
          weightedScore =
            foldl (\<lambda>sum (score, weight). num_add sum (num_mul score weight)) 0
              (zip scores weights)
      in \<lparr> composite = weightedScore,
           individual = \<lparr> ratio = scores ! 0, partial_ratio = scores ! 1,
                          token_sort_ratio = scores ! 2, token_set_ratio = scores ! 3 \<rparr> \<rparr>)"

subsection \<open>The searchable-text builder\<close>

text \<open>
  A code object, as the matcher reads it: every field may be absent. The two array fields
  hold strings, or \<open>null\<close> entries, which the final filter drops.
\<close>

record code_object =
  code :: "string option"
  id' :: "string option"
  display :: "string option"
  title :: "string option"
  name_english :: "string option"
  description :: "string option"
  definition' :: "string option"
  longDefinition :: "string option"
  namc_term :: "string option"
  short_definition :: "string option"
  long_definition :: "string option"
  synonym :: "string option list option"
  inclusion :: "string option list option"

text \<open>\<open>if (field) textParts.push(field)\<close>.\<close>

definition push_if :: "string option \<Rightarrow> string option list" where
  "push_if field = (if falsy field then [] else [field])"

text \<open>\<open>if (field && field !== '-') textParts.push(field)\<close>.\<close>

definition push_if_not_dash :: "string option \<Rightarrow> string option list" where
  "push_if_not_dash field = (if \<not> falsy field \<and> field \<noteq> Some ''-'' then [field] else [])"

text \<open>\<open>if (field && Array.isArray(field)) textParts.push(...field)\<close>.\<close>

definition push_all :: "string option list option \<Rightarrow> string option list" where
  "push_all field = (case field of None \<Rightarrow> [] | Some xs \<Rightarrow> xs)"

text \<open>The predicate of the filter: \<open>text && text !== '-' && text.trim() !== ''\<close>.\<close>

definition keep_part :: "string option \<Rightarrow> bool" where
  "keep_part text = (\<not> falsy text \<and> text \<noteq> Some ''-'' \<and> trim (the text) \<noteq> [])"

definition createSearchableText :: "code_object \<Rightarrow> string" where
  "createSearchableText codeObject =
     (let textParts =
            push_if (display codeObject) @ push_if (title codeObject)
            @ push_if (name_english codeObject) @ push_if (description codeObject)
            @ push_if (definition' codeObject) @ push_if (longDefinition codeObject)
            @ push_if (namc_term codeObject)
            @ push_if_not_dash (short_definition codeObject)
            @ push_if_not_dash (long_definition codeObject)
            @ push_all (synonym codeObject) @ push_all (inclusion codeObject)
      in join_spaces (map the (filter keep_part textParts)))"

subsection \<open>The match ranker\<close>

definition getConfidenceLevel :: "number \<Rightarrow> string" where
  "getConfidenceLevel score =
     (if highConfidenceThreshold \<le> score then ''high''
      else if similarityThreshold \<le> score then ''medium''
      else ''low'')"

record match =
  ayurveda_code :: "string option"
  icd11_code :: "string option"
  icd11_display :: "string option"
  similarity_score :: number
  similarity_details :: individual
  confidence :: string
  ayurveda_text :: string
  icd11_text :: string

text \<open>\<open>a || b\<close> on two optional strings.\<close>

definition or_else :: "string option \<Rightarrow> string option \<Rightarrow> string option" where
  "or_else a b = (if falsy a then b else a)"

text \<open>The object pushed for one target, from the similarity result of the pair.\<close>

definition make_match :: "fuzzball \<Rightarrow> code_object \<Rightarrow> string \<Rightarrow> code_object \<Rightarrow> match" where
  "make_match fz ayurvedaCode ayurvedaSearchText icd11Code =
     (let icd11SearchText = createSearchableText icd11Code;
          similarityResult =
            calculateCompositeSimilarity fz (Some ayurvedaSearchText) (Some icd11SearchText)
      in \<lparr> ayurveda_code = code ayurvedaCode,
           icd11_code = or_else (code icd11Code) (id' icd11Code),
           icd11_display = or_else (display icd11Code) (title icd11Code),
           similarity_score = composite similarityResult,
           similarity_details = individual similarityResult,
           confidence = getConfidenceLevel (composite similarityResult),
           ayurveda_text = ayurvedaSearchText,
           icd11_text = icd11SearchText \<rparr>)"

text \<open>The loop over the targets: a match is pushed when its score reaches the threshold.\<close>

definition collect_matches :: "fuzzball \<Rightarrow> code_object \<Rightarrow> code_object list \<Rightarrow> match list" where
  "collect_matches fz ayurvedaCode icd11Codes =
     (let ayurvedaSearchText = createSearchableText ayurvedaCode
      in filter (\<lambda>m. similarityThreshold \<le> similarity_score m)
           (map (make_match fz ayurvedaCode ayurvedaSearchText) icd11Codes))"

text \<open>
  \<open>Array.prototype.sort\<close> with a comparator. The sort is stable (ECMAScript 2019): it is
  modelled by insertion from the right, where an element goes in front of the first
  element it does not have to follow.
\<close>

fun insert_by :: "('a \<Rightarrow> 'a \<Rightarrow> number) \<Rightarrow> 'a \<Rightarrow> 'a list \<Rightarrow> 'a list" where
  "insert_by cmp x [] = [x]"
| "insert_by cmp x (y # ys) = (if cmp x y \<le> 0 then x # y # ys else y # insert_by cmp x ys)"

definition js_sort :: "('a \<Rightarrow> 'a \<Rightarrow> number) \<Rightarrow> 'a list \<Rightarrow> 'a list" where
  "js_sort cmp xs = foldr (insert_by cmp) xs []"

text \<open>A list of matches in non-increasing order of their composite scores.\<close>

definition score_desc :: "match list \<Rightarrow> bool" where
  "score_desc ms = sorted_wrt (\<lambda>a b. similarity_score b \<le> similarity_score a) ms"

text \<open>The comparator \<open>(a, b) => b.similarity_score - a.similarity_score\<close>.\<close>

definition by_score_desc :: "match \<Rightarrow> match \<Rightarrow> number" where
  "by_score_desc a b = num_sub (similarity_score b) (similarity_score a)"

text \<open>\<open>xs.slice(0, end)\<close> for an integer \<open>end\<close>: a negative \<open>end\<close> counts from the end.\<close>

definition slice0 :: "'a list \<Rightarrow> int \<Rightarrow> 'a list" where
  "slice0 xs end =
     (let len = int (length xs);
          final = (if end < 0 then max (len + end) 0 else min end len)
      in take (nat final) xs)"

text \<open>\<open>findBestMatches(ayurvedaCode, icd11Codes, maxResults = 5)\<close>.\<close>

definition findBestMatches ::
  "fuzzball \<Rightarrow> code_object \<Rightarrow> code_object list \<Rightarrow> int option \<Rightarrow> match list" where
  "findBestMatches fz ayurvedaCode icd11Codes maxResults =
     slice0 (js_sort by_score_desc (collect_matches fz ayurvedaCode icd11Codes))
       (case maxResults of None \<Rightarrow> 5 | Some n \<Rightarrow> n)"

subsection \<open>The table \<open>concept_mappings\<close>\<close>

text \<open>
  A row of the table, with the columns the matcher writes. \<open>namaste_code\<close> and
  \<open>icd11_code\<close> are declared \<open>NOT NULL\<close>; the other columns may hold \<open>NULL\<close>. The text of
  \<open>mapping_details\<close> is the JSON document of three members that \<open>JSON.stringify\<close> writes;
  the model keeps the members. The column \<open>created_at\<close> (a time stamp) is left out.
\<close>

record mapping_details =
  details_similarity :: individual
  details_ayurveda_text :: string
  details_icd11_text :: string

record concept_mapping =
  col_id :: nat
  col_namaste_code :: string
  col_icd11_code :: string
  col_equivalence :: "string option"
  col_confidence :: "number option"
  col_mapping_type :: "string option"
  col_similarity_score :: "number option"
  col_mapping_details :: "mapping_details option"
  col_created_by :: "string option"

text \<open>
  What the matcher acts on: the rows of the table, the counter behind \<open>AUTOINCREMENT\<close>,
  what the storage engine will answer to the coming statements (\<open>Some message\<close>: the
  statement fails for a reason outside the table, such as a locked or unwritable file),
  and the lines written with \<open>console.error\<close>.
\<close>

datatype db_error = SqliteError string

fun message :: "db_error \<Rightarrow> string" where
  "message (SqliteError msg) = msg"

datatype log_entry = ErrorSavingMapping string

record world =
  rows :: "concept_mapping list"
  sequence :: nat
  faults :: "string option list"
  console :: "log_entry list"

definition pair_of :: "concept_mapping \<Rightarrow> string \<times> string" where
  "pair_of r = (col_namaste_code r, col_icd11_code r)"

text \<open>The constraint \<open>UNIQUE(namaste_code, icd11_code)\<close> of the table.\<close>

definition unique_pairs :: "concept_mapping list \<Rightarrow> bool" where
  "unique_pairs rs = distinct (map pair_of rs)"

text \<open>The values bound to the seven parameters of the statement.\<close>

record insert_params =
  p_namaste_code :: "string option"
  p_icd11_code :: "string option"
  p_equivalence :: string
  p_confidence :: number
  p_mapping_type :: string
  p_similarity_score :: number
  p_mapping_details :: mapping_details

definition new_row :: "nat \<Rightarrow> insert_params \<Rightarrow> concept_mapping" where
  "new_row n ps =
     \<lparr> col_id = n,
       col_namaste_code = the (p_namaste_code ps),
       col_icd11_code = the (p_icd11_code ps),
       col_equivalence = Some (p_equivalence ps),
       col_confidence = Some (p_confidence ps),
       col_mapping_type = Some (p_mapping_type ps),
       col_similarity_score = Some (p_similarity_score ps),
       col_mapping_details = Some (p_mapping_details ps),
       col_created_by = None \<rparr>"

definition next_id :: "world \<Rightarrow> nat" where
  "next_id w = Suc (max (sequence w) (fold max (map col_id (rows w)) 0))"

text \<open>
  \<open>INSERT OR REPLACE\<close> (\<open>replace = True\<close>) and \<open>INSERT OR IGNORE\<close> into the table, by
  the conflict rules of SQLite. A \<open>NULL\<close> in a \<open>NOT NULL\<close> column without a default aborts
  a \<open>REPLACE\<close> and makes an \<open>IGNORE\<close> skip the row. A row with the same pair of codes is
  deleted by a \<open>REPLACE\<close> before the new row goes in, and makes an \<open>IGNORE\<close> skip the row.
  The repository never turns foreign keys on, so the two \<open>FOREIGN KEY\<close> clauses are not
  enforced. The statement consumes the next answer of the storage engine.
\<close>

definition insert_mapping :: "bool \<Rightarrow> insert_params \<Rightarrow> world \<Rightarrow> (db_error + unit) \<times> world" where
  "insert_mapping replace ps w =
     (let w1 = w\<lparr>faults := tl (faults w)\<rparr> in
      case faults w of
        Some msg # _ \<Rightarrow> (Inl (SqliteError msg), w1)
      | _ \<Rightarrow>
          if p_namaste_code ps = None \<or> p_icd11_code ps = None then
            (if replace
             then (Inl (SqliteError ''SQLITE_CONSTRAINT: NOT NULL constraint failed''), w1)
             else (Inr (), w1))
          else
            let r = new_row (next_id w) ps;
                clash = (\<lambda>old. pair_of old = pair_of r)
            in
              if replace then
                (Inr (), w1\<lparr>rows := filter (\<lambda>old. \<not> clash old) (rows w) @ [r],
                            sequence := col_id r\<rparr>)
              else if list_ex clash (rows w) then (Inr (), w1)
              else (Inr (), w1\<lparr>rows := rows w @ [r], sequence := col_id r\<rparr>))"

subsection \<open>The mapping generator\<close>

text \<open>
  \<open>saveMappingToDatabase(mapping, overwriteExisting)\<close>. When the statement fails, the
  callback writes the message with \<open>console.error\<close> and rejects the promise. The value the
  promise resolves to (\<open>lastID\<close>) is not used by any caller and is left out.
\<close>

definition params_of :: "match \<Rightarrow> insert_params" where
  "params_of mapping =
     \<lparr> p_namaste_code = ayurveda_code mapping,
       p_icd11_code = icd11_code mapping,
       p_equivalence = ''equivalent'',
       p_confidence = similarity_score mapping,
       p_mapping_type = ''automatic'',
       p_similarity_score = similarity_score mapping,
       p_mapping_details =
         \<lparr> details_similarity = similarity_details mapping,
           details_ayurveda_text = ayurveda_text mapping,
           details_icd11_text = icd11_text mapping \<rparr> \<rparr>"

definition saveMappingToDatabase :: "world \<Rightarrow> match \<Rightarrow> bool \<Rightarrow> (db_error + unit) \<times> world" where
  "saveMappingToDatabase w mapping overwriteExisting =
     (case insert_mapping overwriteExisting (params_of mapping) w of
        (Inl err, w') \<Rightarrow>
          (Inl err, w'\<lparr>console := console w' @ [ErrorSavingMapping (message err)]\<rparr>)
      | (Inr u, w') \<Rightarrow> (Inr u, w'))"

record options =
  maxMatchesPerCode :: "int option"
  saveToDatabase :: "bool option"
  overwriteExisting :: "bool option"

record stats =
  total :: nat
  highConfidence :: nat
  mediumConfidence :: nat

record mapping_results =
  all :: "match list"
  high :: "match list"
  medium :: "match list"
  stats :: stats

text \<open>
  The inner loop of \<open>generateMappings\<close>: each match is pushed on \<open>allMappings\<close> and, if
  requested, saved; the \<open>await\<close> of a rejected save throws out of the loop.
\<close>

fun process_matches ::
  "bool \<Rightarrow> bool \<Rightarrow> match list \<Rightarrow> match list \<Rightarrow> world \<Rightarrow> (db_error + match list) \<times> world" where
  "process_matches save overwrite [] allMappings w = (Inr allMappings, w)"
| "process_matches save overwrite (m # ms) allMappings w =
     (if save then
        (case saveMappingToDatabase w m overwrite of
           (Inl err, w') \<Rightarrow> (Inl err, w')
         | (Inr u, w') \<Rightarrow> process_matches save overwrite ms (allMappings @ [m]) w')
      else process_matches save overwrite ms (allMappings @ [m]) w)"

text \<open>
  The outer loop, over the source codes. The pause of 100 ms after every tenth code and
  the progress lines of \<open>console.log\<close> change neither the result nor the table and are
  left out.
\<close>

fun process_codes ::
  "fuzzball \<Rightarrow> bool \<Rightarrow> bool \<Rightarrow> int \<Rightarrow> code_object list \<Rightarrow> code_object list \<Rightarrow> match list \<Rightarrow> world
     \<Rightarrow> (db_error + match list) \<times> world" where
  "process_codes fz save overwrite maxMatches icd11Codes [] allMappings w = (Inr allMappings, w)"
| "process_codes fz save overwrite maxMatches icd11Codes (ayurvedaCode # rest) allMappings w =
     (case process_matches save overwrite
             (findBestMatches fz ayurvedaCode icd11Codes (Some maxMatches)) allMappings w of
        (Inl err, w') \<Rightarrow> (Inl err, w')
      | (Inr allMappings', w') \<Rightarrow>
          process_codes fz save overwrite maxMatches icd11Codes rest allMappings' w')"

definition summarize :: "match list \<Rightarrow> mapping_results" where
  "summarize allMappings =
     (let highConfidence = filter (\<lambda>m. confidence m = ''high'') allMappings;
          mediumConfidence = filter (\<lambda>m. confidence m = ''medium'') allMappings
      in \<lparr> all = allMappings, high = highConfidence, medium = mediumConfidence,
           stats = \<lparr> total = length allMappings,
                     highConfidence = length highConfidence,
                     mediumConfidence = length mediumConfidence \<rparr> \<rparr>)"

definition generateMappings ::
  "fuzzball \<Rightarrow> world \<Rightarrow> code_object list \<Rightarrow> code_object list \<Rightarrow> options
     \<Rightarrow> (db_error + mapping_results) \<times> world" where
  "generateMappings fz w ayurvedaCodes icd11Codes opts =
     (let maxMatches = (case maxMatchesPerCode opts of None \<Rightarrow> 3 | Some n \<Rightarrow> n);
          save = (case saveToDatabase opts of None \<Rightarrow> True | Some b \<Rightarrow> b);
          overwrite = (case overwriteExisting opts of None \<Rightarrow> False | Some b \<Rightarrow> b)
      in case process_codes fz save overwrite maxMatches icd11Codes ayurvedaCodes [] w of
           (Inl err, w') \<Rightarrow> (Inl err, w')
         | (Inr allMappings, w') \<Rightarrow> (Inr (summarize allMappings), w'))"

text \<open>
  Two notions used to state the properties of the generator: the matches of a whole batch,
  in the order the loops produce them, and the saving of a list of matches one after the
  other, for as long as no save fails.
\<close>

definition batch_matches ::
  "fuzzball \<Rightarrow> code_object list \<Rightarrow> code_object list \<Rightarrow> options \<Rightarrow> match list" where
  "batch_matches fz ayurvedaCodes icd11Codes opts =
     concat (map (\<lambda>c. findBestMatches fz c icd11Codes
                        (Some (case maxMatchesPerCode opts of None \<Rightarrow> 3 | Some n \<Rightarrow> n)))
               ayurvedaCodes)"

fun save_all :: "bool \<Rightarrow> match list \<Rightarrow> world \<Rightarrow> (db_error + unit) \<times> world" where
  "save_all overwrite [] w = (Inr (), w)"
| "save_all overwrite (m # ms) w =
     (case saveMappingToDatabase w m overwrite of
        (Inl err, w') \<Rightarrow> (Inl err, w')
      | (Inr u, w') \<Rightarrow> save_all overwrite ms w')"

text \<open>
  A stand-in for the library on the texts of the examples: identical strings score 100
  with every metric, and all other pairs score 0.
\<close>

definition exact_fuzz :: fuzzball where
  "exact_fuzz =
     \<lparr> fuzz_ratio = (\<lambda>a b. if a = b then 100 else 0),
       fuzz_partial_ratio = (\<lambda>a b. if a = b then 100 else 0),
       fuzz_token_sort_ratio = (\<lambda>a b. if a = b then 100 else 0),
       fuzz_token_set_ratio = (\<lambda>a b. if a = b then 100 else 0) \<rparr>"

text \<open>The options of a call that passes none: \<open>generateMappings(codes, targets)\<close>.\<close>

definition default_options :: options where
  "default_options =
     \<lparr> maxMatchesPerCode = None, saveToDatabase = None, overwriteExisting = None \<rparr>"

definition blank_code :: code_object where
  "blank_code =
     \<lparr> code = None, id' = None, display = None, title = None, name_english = None,
       description = None, definition' = None, longDefinition = None, namc_term = None,
       short_definition = None, long_definition = None, synonym = None, inclusion = None \<rparr>"

definition empty_world :: world where
  "empty_world = \<lparr> rows = [], sequence = 0, faults = [], console = [] \<rparr>"

text \<open>
  The records of the examples: a source code, two targets whose texts have the normal form
  of the source text (the second one is identified by \<open>id\<close> and \<open>title\<close> only), and a
  target with another text.
\<close>

definition sample_source :: code_object where
  "sample_source = blank_code\<lparr>code := Some ''A'', display := Some ''gastro-intestinal disorder''\<rparr>"

definition target_sm10 :: code_object where
  "target_sm10 = blank_code\<lparr>code := Some ''SM10'', display := Some ''Gastro-intestinal disorder''\<rparr>"

definition target_sm11 :: code_object where
  "target_sm11 = blank_code\<lparr>id' := Some ''SM11'', title := Some ''Gastro Intestinal Disorder''\<rparr>"

definition target_sk00 :: code_object where
  "target_sk00 = blank_code\<lparr>code := Some ''SK00'', display := Some ''Head, brain, nerve disorders''\<rparr>"

text \<open>
  The matches of the source with the two targets of the same normal form, the list of the
  sample targets, and the message of a failing storage engine.
\<close>

abbreviation match_sm10 :: match where
  "match_sm10 \<equiv> make_match exact_fuzz sample_source ''gastro-intestinal disorder'' target_sm10"

abbreviation match_sm11 :: match where
  "match_sm11 \<equiv> make_match exact_fuzz sample_source ''gastro-intestinal disorder'' target_sm11"

abbreviation sample_targets :: "code_object list" where
  "sample_targets \<equiv> [target_sm10, target_sk00, target_sm11]"

definition disk_error :: string where
  "disk_error = ''SQLITE_IOERR: disk I/O error''"

section \<open>Properties\<close>

subsection \<open>The normal form of a text\<close>

lemma word_not_space: "is_word c \<Longrightarrow> \<not> is_space c"
  by (auto simp: is_word_def is_space_def Let_def)

lemma space_not_word: "is_space c \<Longrightarrow> \<not> is_word c"
  using word_not_space by blast

lemma blank_is_space: "is_space (CHR '' '')"
  by (simp add: is_space_def)

lemma replace_spaces_dropWhile:
  "dropWhile is_space (replace_spaces s) = replace_spaces (dropWhile is_space s)"
proof (cases s)
  case Nil
  then show ?thesis by simp
next
  case (Cons c cs)
  show ?thesis
  proof (cases "is_space c")
    case False
    with Cons show ?thesis by simp
  next
    case True
    have "dropWhile is_space (replace_spaces (dropWhile is_space cs)) = replace_spaces (dropWhile is_space cs)"
    proof (cases "dropWhile is_space cs")
      case Nil
      then show ?thesis by (simp only: replace_spaces.simps dropWhile.simps)
    next
      case (Cons d ds)
      then have "\<not> is_space d"
        by (metis hd_dropWhile list.distinct(1) list.sel(1))
      with Cons show ?thesis by simp
    qed
    with Cons True show ?thesis by (simp add: blank_is_space)
  qed
qed

lemma replace_spaces_words:
  "\<forall>c \<in> set w. \<not> is_space c \<Longrightarrow> replace_spaces (w @ s) = w @ replace_spaces s"
  by (induction w) auto

lemma rtrim_append:
  "rtrim b \<noteq> [] \<Longrightarrow> rtrim (a @ b) = a @ rtrim b"
  by (auto simp: rtrim_def dropWhile_append split: if_splits)

lemma rtrim_word:
  "w \<noteq> [] \<Longrightarrow> \<not> is_space (last w) \<Longrightarrow> rtrim w = w"
  by (cases w rule: rev_cases) (auto simp: rtrim_def)

lemma word_runs_dropWhile_space:
  "word_runs (dropWhile is_space s) = word_runs s"
  by (induction s) (auto simp: space_not_word)

lemma is_word_replace_punct:
  "is_word (if \<not> is_word c \<and> \<not> is_space c then CHR '' '' else c) = is_word c"
  using space_not_word [OF blank_is_space] by auto

lemma takeWhile_word_replace_punct:
  "takeWhile is_word (replace_punct s) = takeWhile is_word s"
  unfolding replace_punct_def
  by (induction s) (auto simp: is_word_replace_punct simp del: blank_is_space)

lemma dropWhile_word_replace_punct:
  "dropWhile is_word (replace_punct s) = replace_punct (dropWhile is_word s)"
  unfolding replace_punct_def
  by (induction s) (auto simp: space_not_word [OF blank_is_space])

lemma word_runs_replace_punct: "word_runs (replace_punct s) = word_runs s"
proof (induction s rule: word_runs.induct)
  case 1
  then show ?case by (simp add: replace_punct_def)
next
  case (2 c cs)
  show ?case
  proof (cases "is_word c")
    case True
    have "replace_punct (c # cs) = c # replace_punct cs"
      using True by (simp add: replace_punct_def)
    with True 2 show ?thesis
      by (simp add: takeWhile_word_replace_punct dropWhile_word_replace_punct)
  next
    case False
    have "replace_punct (c # cs) = (if is_space c then c else CHR '' '') # replace_punct cs"
      using False by (simp add: replace_punct_def)
    with False 2 show ?thesis
      by (simp add: space_not_word blank_is_space)
  qed
qed

lemma replace_punct_classes:
  "\<forall>c \<in> set (replace_punct s). is_word c \<or> is_space c"
  by (auto simp: replace_punct_def blank_is_space)

lemma word_runs_Nil_iff: "word_runs s = [] \<longleftrightarrow> (\<forall>c \<in> set s. \<not> is_word c)"
  by (induction s rule: word_runs.induct) auto

lemma join_spaces_Cons:
  "ws \<noteq> [] \<Longrightarrow> join_spaces (w # ws) = w @ CHR '' '' # join_spaces ws"
  by (cases ws) auto

lemma join_spaces_Nil_iff:
  "\<forall>w \<in> set ws. w \<noteq> [] \<Longrightarrow> join_spaces ws = [] \<longleftrightarrow> ws = []"
  by (induction ws rule: join_spaces.induct) auto

lemma word_runs_nonempty: "\<forall>w \<in> set (word_runs s). w \<noteq> []"
  by (induction s rule: word_runs.induct) auto

lemma rtrim_replace_spaces:
  assumes "\<forall>c \<in> set s. is_word c \<or> is_space c" and "s = [] \<or> is_word (hd s)"
  shows "rtrim (replace_spaces s) = join_spaces (word_runs s)"
  using assms
proof (induction "length s" arbitrary: s rule: less_induct)
  case less
  show ?case
  proof (cases s)
    case Nil
    then show ?thesis by (simp add: rtrim_def)
  next
    case (Cons c cs)
    with less.prems have c: "is_word c" by simp
    define w where "w = c # takeWhile is_word cs"
    define r where "r = dropWhile is_word cs"
    define s' where "s' = dropWhile is_space r"
    have s: "s = w @ r" by (simp add: Cons w_def r_def)
    have w_ns: "\<forall>c \<in> set w. \<not> is_space c"
      using c by (auto simp: w_def word_not_space dest: set_takeWhileD)
    have w_last: "\<not> is_space (last w)" "w \<noteq> []"
      using w_ns by (auto simp: w_def)
    have runs: "word_runs s = w # word_runs s'"
      using c by (simp add: Cons w_def r_def s'_def word_runs_dropWhile_space)
    have rs: "replace_spaces s = w @ replace_spaces r"
      using w_ns by (simp add: s replace_spaces_words)
    show ?thesis
    proof (cases r)
      case Nil
      then show ?thesis using rs runs w_last by (simp add: s'_def rtrim_word)
    next
      case (Cons d ds)
      then have "\<not> is_word d"
        by (metis r_def hd_dropWhile list.distinct(1) list.sel(1))
      moreover have "d \<in> set s" by (simp add: s Cons)
      ultimately have d: "is_space d" using less.prems(1) by blast
      have rr: "replace_spaces r = CHR '' '' # replace_spaces s'"
        using d by (simp add: Cons s'_def)
      have set_s': "set s' \<subseteq> set s"
        using set_dropWhileD by (fastforce simp: s'_def s)
      have len: "length s' < length s"
        using length_dropWhile_le [of is_space r] by (simp add: s'_def s w_def)
      show ?thesis
      proof (cases s')
        case Nil
        have "rtrim (w @ [CHR '' '']) = rtrim w"
          by (simp add: rtrim_def blank_is_space)
        with Nil show ?thesis
          using rs rr runs w_last by (simp add: rtrim_word)
      next
        case (Cons e es)
        then have "\<not> is_space e"
          by (metis s'_def hd_dropWhile list.distinct(1) list.sel(1))
        moreover have "e \<in> set s" using set_s' Cons by auto
        ultimately have e: "is_word e" using less.prems(1) by blast
        have p1: "\<forall>c \<in> set s'. is_word c \<or> is_space c"
          using less.prems(1) set_s' by blast
        have p2: "s' = [] \<or> is_word (hd s')"
          using e Cons by simp
        have ih: "rtrim (replace_spaces s') = join_spaces (word_runs s')"
          by (rule less.hyps [OF len p1 p2])
        have ne: "word_runs s' \<noteq> []"
          using e Cons by simp
        then have "join_spaces (word_runs s') \<noteq> []"
          using join_spaces_Nil_iff [OF word_runs_nonempty] by blast
        then have "rtrim (w @ CHR '' '' # replace_spaces s') = w @ CHR '' '' # rtrim (replace_spaces s')"
          using ih rtrim_append [of "replace_spaces s'" "w @ [CHR '' '']"] by simp
        then show ?thesis
          using rs rr runs ih ne by (simp add: join_spaces_Cons)
      qed
    qed
  qed
qed

lemma normalizeText_runs:
  "normalizeText (Some t) = join_spaces (word_runs (toLowerCase t))"
proof (cases "t = []")
  case True
  then show ?thesis by (simp add: normalizeText_def toLowerCase_def)
next
  case False
  define s where "s = replace_punct (toLowerCase t)"
  define s' where "s' = dropWhile is_space s"
  have cls: "\<forall>c \<in> set s'. is_word c \<or> is_space c"
    using replace_punct_classes [of "toLowerCase t"] set_dropWhileD
    by (fastforce simp: s'_def s_def)
  have hd: "s' = [] \<or> is_word (hd s')"
  proof (cases s')
    case Nil
    then show ?thesis by simp
  next
    case (Cons e es)
    then have "\<not> is_space e"
      by (metis s'_def hd_dropWhile list.distinct(1) list.sel(1))
    with cls Cons show ?thesis by auto
  qed
  have "normalizeText (Some t) = rtrim (replace_spaces s')"
    using False by (simp add: normalizeText_def trim_def s_def s'_def replace_spaces_dropWhile)
  also have "\<dots> = join_spaces (word_runs s')"
    by (rule rtrim_replace_spaces [OF cls hd])
  also have "\<dots> = join_spaces (word_runs (toLowerCase t))"
    by (simp add: s'_def s_def word_runs_dropWhile_space word_runs_replace_punct)
  finally show ?thesis .
qed

text \<open>
  Claim C8. \<open>normalizeText\<close> returns the empty string for \<open>null\<close> and \<open>undefined\<close>; on a
  string it lower-cases, replaces every character that is neither a word character nor
  white space by one space, collapses every run of white space into one space and trims
  both ends. It is a total function of its argument: no input raises. The result is the
  list of the maximal runs of word characters of the lower-cased text, joined by single
  spaces.
\<close>

theorem normalizeText_contract:
  "normalizeText None = [] \<and>
   normalizeText (Some t) = trim (replace_spaces (replace_punct (toLowerCase t))) \<and>
   normalizeText (Some t) = join_spaces (word_runs (toLowerCase t))"
proof -
  have "trim (replace_spaces (replace_punct (toLowerCase []))) = []"
    by (simp add: trim_def rtrim_def replace_punct_def toLowerCase_def)
  then have "normalizeText (Some t) = trim (replace_spaces (replace_punct (toLowerCase t)))"
    by (cases "t = []") (simp_all add: normalizeText_def)
  then show ?thesis
    by (simp add: normalizeText_runs) (simp add: normalizeText_def)
qed

lemma normalizeText_example:
  "normalizeText (Some ''  Gastro-Intestinal   Disorder(s)!'') = ''gastro intestinal disorder s''"
  by code_simp

subsection \<open>Rounding to binary64\<close>

lemma pow2_less_cancel: "(2::rat) powi m < 2 powi n \<Longrightarrow> m < n"
  using power_int_increasing [of n m "2::rat"] by (cases "m < n") auto

lemma pow2_le_cancel: "(2::rat) powi m \<le> 2 powi n \<Longrightarrow> m \<le> n"
  using power_int_strict_increasing [of n m "2::rat"] by (cases "m \<le> n") auto

lemma pow2_mono: "m \<le> n \<Longrightarrow> (2::rat) powi m \<le> 2 powi n"
  by (rule power_int_increasing) auto

lemma pow2_add: "(2::rat) powi (m + n) = 2 powi m * 2 powi n"
  by (rule power_int_add) simp

lemma pow2_nat: "0 \<le> k \<Longrightarrow> (2::rat) powi k = 2 ^ nat k"
  by (simp add: power_int_def)

lemma ilog2_bounds:
  assumes "0 < x"
  shows "2 powi ilog2 x \<le> x \<and> x < 2 powi (ilog2 x + 1)"
proof (cases "1 \<le> x")
  case True
  define n where "n = \<lfloor>x\<rfloor>"
  have n: "0 < n" using True by (simp add: n_def)
  have b1: "1 \<le> bitlen n" using n bitlen_eq_zero_iff [of n] bitlen_nonneg [of n] by linarith
  from bitlen_bounds [OF n] have lo: "2 ^ nat (bitlen n - 1) \<le> n" and hi: "n < 2 ^ nat (bitlen n)"
    by auto
  have "(2::rat) ^ nat (bitlen n - 1) \<le> of_int n"
    using lo by simp
  also have "\<dots> \<le> x" by (simp add: n_def)
  finally have A: "2 powi (bitlen n - 1) \<le> x"
    using b1 by (simp add: pow2_nat)
  have "n + 1 \<le> 2 ^ nat (bitlen n)" using hi by simp
  then have "(of_int (n + 1) :: rat) \<le> 2 ^ nat (bitlen n)"
    by (simp only: of_int_le_numeral_power_cancel_iff)
  moreover have "x < of_int (n + 1)" unfolding n_def by linarith
  ultimately have "x < 2 ^ nat (bitlen n)" by linarith
  then have B: "x < 2 powi (bitlen n)"
    using b1 by (simp add: pow2_nat)
  from A B True show ?thesis by (simp add: ilog2_def n_def)
next
  case False
  define N where "N = \<lceil>1 / x\<rceil>"
  define b where "b = bitlen (N - 1)"
  have inv: "1 < 1 / x" using False assms by simp
  have N2: "2 \<le> N" unfolding N_def using inv by linarith
  then have pos: "0 < N - 1" by simp
  have b1: "1 \<le> b" unfolding b_def
    using pos bitlen_eq_zero_iff [of "N - 1"] bitlen_nonneg [of "N - 1"] by linarith
  from bitlen_bounds [OF pos] have lo: "2 ^ nat (b - 1) \<le> N - 1" and hi: "N - 1 < 2 ^ nat b"
    by (auto simp: b_def)
  have "N \<le> 2 ^ nat b" using hi by simp
  then have "(of_int N :: rat) \<le> 2 ^ nat b"
    by (simp only: of_int_le_numeral_power_cancel_iff)
  moreover have "1 / x \<le> of_int N" unfolding N_def by linarith
  ultimately have "1 / x \<le> 2 ^ nat b" by linarith
  then have "1 / x \<le> 2 powi b" using b1 by (simp add: pow2_nat)
  then have "1 / 2 powi b \<le> x" using assms by (simp add: field_simps)
  then have A: "2 powi (- b) \<le> x"
    by (simp add: power_int_minus divide_inverse)
  have "(2::rat) ^ nat (b - 1) \<le> of_int (N - 1)"
    using lo by (simp only: numeral_power_le_of_int_cancel_iff)
  moreover have "of_int (N - 1) < 1 / x" unfolding N_def by linarith
  ultimately have "(2::rat) ^ nat (b - 1) < 1 / x" by linarith
  then have "2 powi (b - 1) < 1 / x" using b1 by (simp add: pow2_nat)
  then have "x < 1 / 2 powi (b - 1)" using assms by (simp add: field_simps)
  then have B: "x < 2 powi (- b + 1)"
    using power_int_minus [of "2::rat" "b - 1"] by (simp add: divide_inverse)
  from A B False show ?thesis by (simp add: ilog2_def N_def b_def)
qed

lemma ilog2_mono:
  assumes "0 < x" "x \<le> y"
  shows "ilog2 x \<le> ilog2 y"
proof -
  have "2 powi ilog2 x \<le> x" using ilog2_bounds [OF assms(1)] by simp
  also have "x \<le> y" by fact
  also have "y < 2 powi (ilog2 y + 1)" using ilog2_bounds [of y] assms by simp
  finally show ?thesis using pow2_less_cancel by fastforce
qed

lemma round_half_even_bounds: "\<lfloor>y\<rfloor> \<le> round_half_even y \<and> round_half_even y \<le> \<lfloor>y\<rfloor> + 1"
  by (simp add: round_half_even_def Let_def)

lemma round_half_even_of_int: "round_half_even (of_int n) = n"
  by (simp add: round_half_even_def)

lemma round_half_even_mono:
  assumes "a \<le> b"
  shows "round_half_even a \<le> round_half_even b"
proof (cases "\<lfloor>a\<rfloor> = \<lfloor>b\<rfloor>")
  case True
  then have "a - of_int \<lfloor>a\<rfloor> \<le> b - of_int \<lfloor>b\<rfloor>" using assms by simp
  then show ?thesis using True by (auto simp: round_half_even_def Let_def)
next
  case False
  then have "\<lfloor>a\<rfloor> < \<lfloor>b\<rfloor>" using floor_mono [OF assms] by linarith
  then show ?thesis
    using round_half_even_bounds [of a] round_half_even_bounds [of b] by linarith
qed

lemma round_half_even_ge: "of_int n \<le> y \<Longrightarrow> n \<le> round_half_even y"
  using round_half_even_mono [of "of_int n" y] by (simp add: round_half_even_of_int)

lemma round_half_even_le: "y \<le> of_int n \<Longrightarrow> round_half_even y \<le> n"
  using round_half_even_mono [of y "of_int n"] by (simp add: round_half_even_of_int)

lemma ulp_exp_ge: "- 1074 \<le> ulp_exp x"
  by (simp add: ulp_exp_def)

lemma round_pos_nonneg: "0 \<le> x \<Longrightarrow> 0 \<le> round_pos x"
proof -
  assume "0 \<le> x"
  then have "of_int 0 \<le> x / 2 powi ulp_exp x" by simp
  then have "0 \<le> round_half_even (x / 2 powi ulp_exp x)" by (rule round_half_even_ge)
  then show ?thesis by (simp add: round_pos_def)
qed

lemma round_pos_lower:
  assumes "0 < x" and "- 1074 \<le> ilog2 x - 52"
  shows "2 powi ilog2 x \<le> round_pos x"
proof -
  define e where "e = ilog2 x"
  have u: "ulp_exp x = e - 52" using assms(2) by (simp add: ulp_exp_def e_def)
  define p where "p = (2::rat) powi (e - 52)"
  have p: "0 < p" by (simp add: p_def)
  have split: "2 powi e = 2 ^ 52 * p"
    using pow2_add [of 52 "e - 52"] by (simp add: p_def)
  have "2 ^ 52 * p \<le> x" using ilog2_bounds [OF assms(1)] split by (simp add: e_def)
  then have "of_int (2 ^ 52) \<le> x / p" using p by (simp add: field_simps)
  then have "2 ^ 52 \<le> round_half_even (x / p)" by (rule round_half_even_ge)
  then have "(of_int (2 ^ 52) :: rat) \<le> of_int (round_half_even (x / p))"
    by (simp only: of_int_le_iff)
  then have "of_int (2 ^ 52) * p \<le> of_int (round_half_even (x / p)) * p"
    using p by (intro mult_right_mono) auto
  then show ?thesis using split by (simp add: round_pos_def u p_def e_def)
qed

lemma round_pos_upper:
  assumes "0 < x"
  shows "round_pos x \<le> 2 powi (max (ilog2 x + 1) (ulp_exp x))"
proof -
  define u where "u = ulp_exp x"
  define k where "k = max (ilog2 x + 1) u - u"
  define p where "p = (2::rat) powi u"
  have k: "0 \<le> k" by (simp add: k_def)
  have p: "0 < p" by (simp add: p_def)
  have split: "2 powi (max (ilog2 x + 1) u) = 2 ^ nat k * p"
    using pow2_add [of k u] k by (simp add: p_def k_def pow2_nat)
  have "x < 2 powi (ilog2 x + 1)" using ilog2_bounds [OF assms] by simp
  also have "\<dots> \<le> 2 powi (max (ilog2 x + 1) u)" by (rule pow2_mono) simp
  finally have "x \<le> 2 ^ nat k * p" using split by simp
  then have "x / p \<le> of_int (2 ^ nat k)" using p by (simp add: field_simps)
  then have "round_half_even (x / p) \<le> 2 ^ nat k" by (rule round_half_even_le)
  then have "(of_int (round_half_even (x / p)) :: rat) \<le> of_int (2 ^ nat k)"
    by (simp only: of_int_le_iff)
  then have "of_int (round_half_even (x / p)) * p \<le> of_int (2 ^ nat k) * p"
    using p by (intro mult_right_mono) auto
  then show ?thesis using split by (simp add: round_pos_def u_def p_def)
qed

lemma round_pos_mono:
  assumes "0 < x" "x \<le> y"
  shows "round_pos x \<le> round_pos y"
proof -
  have y: "0 < y" using assms by simp
  have e: "ilog2 x \<le> ilog2 y" by (rule ilog2_mono [OF assms])
  then have u: "ulp_exp x \<le> ulp_exp y" by (simp add: ulp_exp_def)
  show ?thesis
  proof (cases "ulp_exp x = ulp_exp y")
    case True
    define p where "p = (2::rat) powi ulp_exp y"
    have p: "0 < p" by (simp add: p_def)
    have "x / p \<le> y / p" using assms(2) p by (simp add: divide_right_mono)
    then have "round_half_even (x / p) \<le> round_half_even (y / p)"
      by (rule round_half_even_mono)
    then have "(of_int (round_half_even (x / p)) :: rat) \<le> of_int (round_half_even (y / p))"
      by (simp only: of_int_le_iff)
    then have "of_int (round_half_even (x / p)) * p \<le> of_int (round_half_even (y / p)) * p"
      using p by (intro mult_right_mono) auto
    then show ?thesis by (simp add: round_pos_def True p_def)
  next
    case False
    with u have lt: "ulp_exp x < ulp_exp y" by simp
    then have normal: "- 1074 \<le> ilog2 y - 52" and ey: "ulp_exp y = ilog2 y - 52"
      using ulp_exp_ge [of x] by (auto simp: ulp_exp_def)
    have "ilog2 x - 52 \<le> ulp_exp x" by (simp add: ulp_exp_def)
    with lt ey have "max (ilog2 x + 1) (ulp_exp x) \<le> ilog2 y" by simp
    then have "(2::rat) powi (max (ilog2 x + 1) (ulp_exp x)) \<le> 2 powi ilog2 y"
      by (rule pow2_mono)
    with round_pos_upper [OF assms(1)] round_pos_lower [OF y normal]
    show ?thesis by linarith
  qed
qed

lemma binary64_mono:
  assumes "x \<le> y"
  shows "binary64 x \<le> binary64 y"
proof -
  consider "0 < x" | "x \<le> 0" "0 \<le> y" | "y < 0" by linarith
  then show ?thesis
  proof cases
    case 1
    with assms round_pos_mono [of x y] show ?thesis by (simp add: binary64_def)
  next
    case 2
    have "binary64 x \<le> 0"
      using 2(1) round_pos_nonneg [of "- x"] by (simp add: binary64_def)
    moreover have "0 \<le> binary64 y"
      using 2(2) round_pos_nonneg [of y] by (simp add: binary64_def)
    ultimately show ?thesis by simp
  next
    case 3
    with assms round_pos_mono [of "- y" "- x"] show ?thesis by (simp add: binary64_def)
  qed
qed

lemma round_pos_on_grid: "on_grid (round_pos x)"
proof -
  define u where "u = ulp_exp x"
  have "0 \<le> u + 1074" using ulp_exp_ge [of x] by (simp add: u_def)
  then have "(2::rat) powi u = of_int (2 ^ nat (u + 1074)) * 2 powi (- 1074)"
    using pow2_add [of "u + 1074" "- 1074"] by (simp add: pow2_nat)
  then have "round_pos x = of_int (round_half_even (x / 2 powi u) * 2 ^ nat (u + 1074)) * 2 powi (- 1074)"
    by (simp add: round_pos_def u_def)
  then show ?thesis unfolding on_grid_def by blast
qed

lemma binary64_on_grid: "on_grid (binary64 x)"
proof -
  have neg: "on_grid (- z)" if "on_grid z" for z
  proof -
    from that obtain n :: int where "z = of_int n * 2 powi (- 1074)" unfolding on_grid_def by blast
    then have "- z = of_int (- n) * 2 powi (- 1074)" by simp
    then show ?thesis unfolding on_grid_def by blast
  qed
  have "on_grid 0" unfolding on_grid_def by (rule exI [of _ 0]) simp
  then show ?thesis using round_pos_on_grid neg by (simp add: binary64_def)
qed

lemma round_pos_positive:
  assumes "2 powi (- 1074) \<le> z"
  shows "0 < round_pos z"
proof -
  have z: "0 < z" using assms by (rule less_le_trans [rotated]) simp
  show ?thesis
  proof (cases "- 1074 \<le> ilog2 z - 52")
    case True
    have "(0::rat) < 2 powi ilog2 z" by simp
    with round_pos_lower [OF z True] show ?thesis by linarith
  next
    case False
    then have u: "ulp_exp z = - 1074" by (simp add: ulp_exp_def)
    have "of_int 1 \<le> z / 2 powi (- 1074)" using assms by (simp add: field_simps)
    then have "1 \<le> round_half_even (z / 2 powi (- 1074))" by (rule round_half_even_ge)
    then have "(0::rat) < of_int (round_half_even (z / 2 powi (- 1074)))" by simp
    then show ?thesis by (simp add: round_pos_def u)
  qed
qed

lemma binary64_sub_sign:
  assumes "on_grid a" "on_grid b"
  shows "binary64 (b - a) \<le> 0 \<longleftrightarrow> b \<le> a"
proof
  assume "b \<le> a"
  then have "binary64 (b - a) \<le> binary64 0" by (intro binary64_mono) simp
  then show "binary64 (b - a) \<le> 0" by (simp add: binary64_def)
next
  assume le: "binary64 (b - a) \<le> 0"
  show "b \<le> a"
  proof (rule ccontr)
    assume "\<not> b \<le> a"
    then have lt: "a < b" by simp
    from assms obtain m n :: int
      where a: "a = of_int m * 2 powi (- 1074)" and b: "b = of_int n * 2 powi (- 1074)"
      unfolding on_grid_def by blast
    have g: "(0::rat) < 2 powi (- 1074)" by simp
    from lt a b g have "(of_int m :: rat) < of_int n" by (simp only: mult_less_cancel_right_pos)
    then have "m + 1 \<le> n" by simp
    then have "(of_int (m + 1) :: rat) \<le> of_int n" by (simp only: of_int_le_iff)
    then have "of_int (m + 1) * 2 powi (- 1074) \<le> (of_int n :: rat) * 2 powi (- 1074)"
      by (intro mult_right_mono) auto
    then have "2 powi (- 1074) \<le> b - a" by (simp add: a b algebra_simps)
    then have "0 < round_pos (b - a)" by (rule round_pos_positive)
    with lt have "0 < binary64 (b - a)" by (simp add: binary64_def)
    with le show False by simp
  qed
qed

lemma ilog2_unique:
  assumes "0 < x" "2 powi e \<le> x" "x < 2 powi (e + 1)"
  shows "ilog2 x = e"
proof -
  from ilog2_bounds [OF assms(1)]
  have lo: "2 powi ilog2 x \<le> x" and hi: "x < 2 powi (ilog2 x + 1)" by auto
  have "(2::rat) powi e < 2 powi (ilog2 x + 1)" using assms(2) hi by linarith
  then have "e < ilog2 x + 1" by (rule pow2_less_cancel)
  moreover have "(2::rat) powi ilog2 x < 2 powi (e + 1)" using lo assms(3) by linarith
  then have "ilog2 x < e + 1" by (rule pow2_less_cancel)
  ultimately show ?thesis by simp
qed

lemma round_pos_exact:
  assumes "0 < M" "M < 2 ^ 53" "- 1074 \<le> v"
  shows "round_pos (of_int M * 2 powi v) = of_int M * 2 powi v"
proof -
  define y :: rat where "y = of_int M * 2 powi v"
  define u where "u = ulp_exp y"
  have y: "0 < y" using assms(1) by (simp add: y_def)
  have "(of_int M :: rat) < 2 ^ 53" using assms(2) by (simp only: of_int_less_numeral_power_cancel_iff)
  then have "y < 2 ^ 53 * 2 powi v" unfolding y_def by (intro mult_strict_right_mono) auto
  also have "\<dots> = 2 powi (v + 53)" using pow2_add [of 53 v] by (simp add: add.commute)
  finally have "2 powi ilog2 y < (2::rat) powi (v + 53)"
    using ilog2_bounds [OF y] by linarith
  then have "ilog2 y < v + 53" by (rule pow2_less_cancel)
  then have uv: "u \<le> v" using assms(3) by (simp add: u_def ulp_exp_def)
  define d where "d = v - u"
  have d: "0 \<le> d" using uv by (simp add: d_def)
  have split: "(2::rat) powi v = 2 ^ nat d * 2 powi u"
    using pow2_add [of d u] d by (simp add: d_def pow2_nat)
  have "y / 2 powi u = of_int (M * 2 ^ nat d)"
    by (simp add: y_def split)
  then have "round_half_even (y / 2 powi u) = M * 2 ^ nat d"
    by (simp only: round_half_even_of_int)
  then have "round_pos y = of_int (M * 2 ^ nat d) * 2 powi u"
    by (simp add: round_pos_def u_def)
  also have "\<dots> = y" by (simp add: y_def split)
  finally show ?thesis by (simp add: y_def)
qed

lemma round_pos_representable:
  assumes "0 < x"
  shows "round_pos x = 0 \<or>
    (\<exists>M v. 0 < M \<and> M < 2 ^ 53 \<and> - 1074 \<le> v \<and> round_pos x = of_int M * 2 powi v)"
proof -
  define u where "u = ulp_exp x"
  define R where "R = round_half_even (x / 2 powi u)"
  have u: "- 1074 \<le> u" by (simp add: u_def ulp_exp_ge)
  have rp: "round_pos x = of_int R * 2 powi u" by (simp add: round_pos_def R_def u_def)
  have "of_int 0 \<le> x / 2 powi u" using assms by simp
  then have R0: "0 \<le> R" unfolding R_def by (rule round_half_even_ge)
  have "ilog2 x + 1 \<le> u + 53" by (simp add: u_def ulp_exp_def)
  then have "(2::rat) powi (ilog2 x + 1) \<le> 2 powi (u + 53)" by (rule pow2_mono)
  also have "\<dots> = 2 ^ 53 * 2 powi u" using pow2_add [of 53 u] by (simp add: add.commute)
  finally have "x \<le> 2 ^ 53 * 2 powi u" using ilog2_bounds [OF assms] by linarith
  then have "x / 2 powi u \<le> of_int (2 ^ 53)" by (simp add: field_simps)
  then have R53: "R \<le> 2 ^ 53" unfolding R_def by (rule round_half_even_le)
  consider "R = 0" | "0 < R" "R < 2 ^ 53" | "R = 2 ^ 53" using R0 R53 by linarith
  then show ?thesis
  proof cases
    case 1
    then show ?thesis by (simp add: rp)
  next
    case 2
    then show ?thesis using u rp by blast
  next
    case 3
    have "round_pos x = of_int (2 ^ 52) * 2 powi (u + 1)"
      using pow2_add [of 1 u] by (simp add: rp 3 add.commute)
    moreover have "(0::int) < 2 ^ 52" "(2::int) ^ 52 < 2 ^ 53" "- 1074 \<le> u + 1"
      using u by simp_all
    ultimately show ?thesis by blast
  qed
qed

lemma round_pos_idem:
  assumes "0 < x"
  shows "binary64 (round_pos x) = round_pos x"
proof -
  from round_pos_representable [OF assms] show ?thesis
  proof
    assume "round_pos x = 0"
    then show ?thesis by (simp add: binary64_def)
  next
    assume "\<exists>M v. 0 < M \<and> M < 2 ^ 53 \<and> - 1074 \<le> v \<and> round_pos x = of_int M * 2 powi v"
    then obtain M v where M: "0 < M" "M < 2 ^ 53" "- 1074 \<le> v"
      and eq: "round_pos x = of_int M * 2 powi v" by blast
    have "0 < round_pos x" using M(1) by (simp add: eq)
    then show ?thesis using round_pos_exact [OF M] by (simp add: binary64_def eq)
  qed
qed

lemma binary64_minus: "binary64 (- x) = - binary64 x"
  by (simp add: binary64_def)

lemma binary64_idem: "binary64 (binary64 x) = binary64 x"
proof -
  consider "x = 0" | "0 < x" | "x < 0" by linarith
  then show ?thesis
  proof cases
    case 1
    then show ?thesis by (simp add: binary64_def)
  next
    case 2
    then show ?thesis using round_pos_idem [of x] by (simp add: binary64_def)
  next
    case 3
    then have "binary64 x = - round_pos (- x)" by (simp add: binary64_def)
    moreover have "binary64 (- round_pos (- x)) = - round_pos (- x)"
      using 3 round_pos_idem [of "- x"] by (simp add: binary64_minus)
    ultimately show ?thesis by simp
  qed
qed

lemma binary64_zero: "binary64 0 = 0"
  by (simp add: binary64_def)

lemma binary64_dyadic:
  assumes "0 < M" "M < 2 ^ 53" "- 1074 \<le> v"
  shows "binary64 (of_int M * 2 powi v) = of_int M * 2 powi v"
  using assms round_pos_exact [OF assms] by (simp add: binary64_def)

lemma binary64_one: "binary64 1 = 1"
  using binary64_dyadic [of 1 0] by simp

lemma binary64_half: "binary64 (1 / 2) = 1 / 2"
  using binary64_dyadic [of 1 "- 1"] by simp

lemma binary64_three_quarters: "binary64 (3 / 4) = 3 / 4"
  using binary64_dyadic [of 3 "- 2"] by (simp add: power_int_minus)

lemma binary64_five_eighths: "binary64 (5 / 8) = 5 / 8"
  using binary64_dyadic [of 5 "- 3"] by (simp add: power_int_minus)

lemma thresholds_ordered:
  "0 < similarityThreshold" "similarityThreshold < highConfidenceThreshold"
  "highConfidenceThreshold \<le> 1"
proof -
  have a: "1 / 2 \<le> similarityThreshold"
    unfolding similarityThreshold_def using binary64_mono [of "1 / 2" "6 / 10"] by (simp add: binary64_half)
  have b: "similarityThreshold \<le> 5 / 8"
    unfolding similarityThreshold_def using binary64_mono [of "6 / 10" "5 / 8"] by (simp add: binary64_five_eighths)
  have c: "3 / 4 \<le> highConfidenceThreshold"
    unfolding highConfidenceThreshold_def using binary64_mono [of "3 / 4" "8 / 10"] by (simp add: binary64_three_quarters)
  have d: "highConfidenceThreshold \<le> 1"
    unfolding highConfidenceThreshold_def using binary64_mono [of "8 / 10" 1] by (simp add: binary64_one)
  show "0 < similarityThreshold" using a by simp
  show "similarityThreshold < highConfidenceThreshold" using b c by simp
  show "highConfidenceThreshold \<le> 1" by (rule d)
qed

subsection \<open>The similarity scorer\<close>

lemma weights_sum_one:
  "num_add (num_add (num_add (binary64 (4 / 10)) (binary64 (2 / 10))) (binary64 (2 / 10)))
     (binary64 (2 / 10)) = 1"
  by code_simp

lemma falsy_normalizeText: "falsy text \<Longrightarrow> normalizeText text = []"
  by (auto simp: falsy_def normalizeText_def)

lemma calculateSimilarity_empty:
  "normalizeText text1 = [] \<or> normalizeText text2 = [] \<Longrightarrow>
   calculateSimilarity fz text1 text2 method = 0"
  by (auto simp: calculateSimilarity_def Let_def)

lemma calculateSimilarity_methods:
  assumes "normalizeText text1 \<noteq> []" "normalizeText text2 \<noteq> []"
  shows "calculateSimilarity fz text1 text2 ''ratio'' =
           num_div (of_nat (fuzz_ratio fz (normalizeText text1) (normalizeText text2))) 100"
    and "calculateSimilarity fz text1 text2 ''partial_ratio'' =
           num_div (of_nat (fuzz_partial_ratio fz (normalizeText text1) (normalizeText text2))) 100"
    and "calculateSimilarity fz text1 text2 ''token_sort_ratio'' =
           num_div (of_nat (fuzz_token_sort_ratio fz (normalizeText text1) (normalizeText text2))) 100"
    and "calculateSimilarity fz text1 text2 ''token_set_ratio'' =
           num_div (of_nat (fuzz_token_set_ratio fz (normalizeText text1) (normalizeText text2))) 100"
  using assms falsy_normalizeText [of text1] falsy_normalizeText [of text2]
  by (auto simp: calculateSimilarity_def Let_def)

lemma num_add_zero_left: "num_add 0 (num_mul x y) = num_mul x y"
  by (simp add: num_add_def num_mul_def binary64_idem)

lemma num_mul_commute: "num_mul x y = num_mul y x"
  by (simp add: num_mul_def mult.commute)

lemma composite_unfold:
  "composite (calculateCompositeSimilarity fz text1 text2) =
     num_add (num_add (num_add
       (num_mul (binary64 (4 / 10)) (calculateSimilarity fz text1 text2 ''ratio''))
       (num_mul (binary64 (2 / 10)) (calculateSimilarity fz text1 text2 ''partial_ratio'')))
       (num_mul (binary64 (2 / 10)) (calculateSimilarity fz text1 text2 ''token_sort_ratio'')))
       (num_mul (binary64 (2 / 10)) (calculateSimilarity fz text1 text2 ''token_set_ratio''))"
  by (simp add: calculateCompositeSimilarity_def methods_def weights_def Let_def
      num_add_zero_left num_mul_commute)

lemma individual_unfold:
  "individual (calculateCompositeSimilarity fz text1 text2) =
     \<lparr> ratio = calculateSimilarity fz text1 text2 ''ratio'',
       partial_ratio = calculateSimilarity fz text1 text2 ''partial_ratio'',
       token_sort_ratio = calculateSimilarity fz text1 text2 ''token_sort_ratio'',
       token_set_ratio = calculateSimilarity fz text1 text2 ''token_set_ratio'' \<rparr>"
  by (simp add: calculateCompositeSimilarity_def methods_def Let_def)

lemma composite_empty:
  assumes "normalizeText text1 = [] \<or> normalizeText text2 = []"
  shows "calculateCompositeSimilarity fz text1 text2 =
     \<lparr> composite = 0,
       individual = \<lparr> ratio = 0, partial_ratio = 0, token_sort_ratio = 0, token_set_ratio = 0 \<rparr> \<rparr>"
proof -
  have "composite (calculateCompositeSimilarity fz text1 text2) = 0"
    by (simp add: composite_unfold calculateSimilarity_empty [OF assms] num_add_def num_mul_def
        binary64_zero)
  moreover have "individual (calculateCompositeSimilarity fz text1 text2) =
      \<lparr> ratio = 0, partial_ratio = 0, token_sort_ratio = 0, token_set_ratio = 0 \<rparr>"
    by (simp add: individual_unfold calculateSimilarity_empty [OF assms])
  ultimately show ?thesis by simp
qed

lemma calculateSimilarity_le_one:
  assumes "\<forall>a b. fuzz_ratio fz a b \<le> 100 \<and> fuzz_partial_ratio fz a b \<le> 100
             \<and> fuzz_token_sort_ratio fz a b \<le> 100 \<and> fuzz_token_set_ratio fz a b \<le> 100"
  shows "calculateSimilarity fz text1 text2 method \<le> 1"
proof -
  have "num_div (of_nat k) 100 \<le> 1" if "k \<le> 100" for k :: nat
  proof -
    have "(of_nat k :: rat) \<le> 100" using that by simp
    then have "(of_nat k :: rat) / 100 \<le> 1" by simp
    then show ?thesis
      unfolding num_div_def using binary64_mono [of "of_nat k / 100" 1] by (simp add: binary64_one)
  qed
  then show ?thesis using assms by (simp add: calculateSimilarity_def Let_def)
qed

lemma weight_nonneg: "0 \<le> binary64 (4 / 10)" "0 \<le> binary64 (2 / 10)"
  using binary64_mono [of 0 "4 / 10"] binary64_mono [of 0 "2 / 10"] by (simp_all add: binary64_zero)

lemma num_mul_weight_mono: "0 \<le> w \<Longrightarrow> s \<le> 1 \<Longrightarrow> num_mul w s \<le> binary64 w"
  unfolding num_mul_def using binary64_mono [of "w * s" w] by (simp add: mult_left_le)

lemma num_add_mono: "a \<le> a' \<Longrightarrow> b \<le> b' \<Longrightarrow> num_add a b \<le> num_add a' b'"
  unfolding num_add_def by (intro binary64_mono add_mono)

lemma round_half_even_error: "\<bar>of_int (round_half_even y) - y\<bar> \<le> 1 / 2"
proof -
  have "of_int \<lfloor>y\<rfloor> \<le> y" "y < of_int \<lfloor>y\<rfloor> + 1" by linarith+
  then show ?thesis by (auto simp: round_half_even_def Let_def abs_le_iff)
qed

lemma round_pos_error:
  assumes "0 < x"
  shows "\<bar>round_pos x - x\<bar> \<le> 2 powi ulp_exp x / 2"
proof -
  define p where "p = (2::rat) powi ulp_exp x"
  have p: "0 < p" by (simp add: p_def)
  have "round_pos x - x = (of_int (round_half_even (x / p)) - x / p) * p"
    using p by (simp add: round_pos_def p_def algebra_simps)
  then have "\<bar>round_pos x - x\<bar> = \<bar>of_int (round_half_even (x / p)) - x / p\<bar> * p"
    using p by (simp add: abs_mult)
  also have "\<dots> \<le> 1 / 2 * p"
    using p round_half_even_error [of "x / p"] by (intro mult_right_mono) auto
  finally show ?thesis by (simp add: p_def)
qed

lemma binary64_error:
  assumes "0 \<le> x" "x < 2"
  shows "\<bar>binary64 x - x\<bar> \<le> 1 / 2 ^ 53"
proof (cases "x = 0")
  case True
  then show ?thesis by (simp add: binary64_def)
next
  case False
  then have x: "0 < x" using assms by simp
  have "2 powi ilog2 x < (2::rat) powi 1" using ilog2_bounds [OF x] assms(2) by simp
  then have "ilog2 x < 1" by (rule pow2_less_cancel)
  then have "ulp_exp x \<le> - 52" by (simp add: ulp_exp_def)
  then have "(2::rat) powi ulp_exp x \<le> 2 powi (- 52)" by (rule pow2_mono)
  then have "(2::rat) powi ulp_exp x / 2 \<le> 1 / 2 ^ 53" by (simp add: power_int_minus field_simps)
  with round_pos_error [OF x] show ?thesis using x by (simp add: binary64_def)
qed

lemma product_error:
  fixes w c s q e :: rat
  assumes "\<bar>w - c\<bar> \<le> e" "\<bar>s - q\<bar> \<le> e" "0 \<le> s" "s \<le> 1" "0 \<le> c" "c \<le> 1"
  shows "\<bar>w * s - c * q\<bar> \<le> 2 * e"
proof -
  have e: "0 \<le> e" using assms(1) by linarith
  have "w * s - c * q = (w - c) * s + c * (s - q)" by (simp add: algebra_simps)
  then have "\<bar>w * s - c * q\<bar> \<le> \<bar>(w - c) * s\<bar> + \<bar>c * (s - q)\<bar>"
    using abs_triangle_ineq [of "(w - c) * s" "c * (s - q)"] by simp
  also have "\<bar>(w - c) * s\<bar> \<le> e * 1"
    unfolding abs_mult using assms(1,3,4) e by (intro mult_mono) auto
  also have "\<bar>c * (s - q)\<bar> \<le> 1 * e"
    unfolding abs_mult using assms(2,5,6) e by (intro mult_mono) auto
  finally show ?thesis by simp
qed

lemma binary64_nonneg: "0 \<le> x \<Longrightarrow> 0 \<le> binary64 x"
  using binary64_mono [of 0 x] by (simp add: binary64_zero)

lemma binary64_quarter: "binary64 (1 / 4) = 1 / 4"
  using binary64_dyadic [of 1 "- 2"] by (simp add: power_int_minus)

lemma weight_facts:
  "\<bar>binary64 (4 / 10) - 4 / 10\<bar> \<le> 1 / 2 ^ 53" "binary64 (4 / 10) \<le> 1 / 2"
  "\<bar>binary64 (2 / 10) - 2 / 10\<bar> \<le> 1 / 2 ^ 53" "binary64 (2 / 10) \<le> 1 / 4"
proof -
  show "\<bar>binary64 (4 / 10) - 4 / 10\<bar> \<le> 1 / 2 ^ 53" by (rule binary64_error) simp_all
  show "\<bar>binary64 (2 / 10) - 2 / 10\<bar> \<le> 1 / 2 ^ 53" by (rule binary64_error) simp_all
  show "binary64 (4 / 10) \<le> 1 / 2"
    using binary64_mono [of "4 / 10" "1 / 2"] by (simp add: binary64_half)
  show "binary64 (2 / 10) \<le> 1 / 4"
    using binary64_mono [of "2 / 10" "1 / 4"] by (simp add: binary64_quarter)
qed

lemma sub_score_facts:
  assumes "k \<le> 100"
  shows "\<bar>num_div (of_nat k) 100 - of_nat k / 100\<bar> \<le> 1 / 2 ^ 53"
    and "0 \<le> num_div (of_nat k) 100" and "num_div (of_nat k) 100 \<le> 1"
proof -
  have q: "(0::rat) \<le> of_nat k / 100" "(of_nat k :: rat) / 100 \<le> 1" using assms by simp_all
  show "\<bar>num_div (of_nat k) 100 - of_nat k / 100\<bar> \<le> 1 / 2 ^ 53"
    unfolding num_div_def using q by (intro binary64_error) auto
  show "0 \<le> num_div (of_nat k) 100"
    unfolding num_div_def by (rule binary64_nonneg [OF q(1)])
  show "num_div (of_nat k) 100 \<le> 1"
    unfolding num_div_def using binary64_mono [OF q(2)] by (simp add: binary64_one)
qed

lemma term_facts:
  fixes c :: rat
  assumes k: "k \<le> 100" and c: "0 \<le> c" "c \<le> 1"
    and w: "\<bar>binary64 c - c\<bar> \<le> 1 / 2 ^ 53" "binary64 c \<le> b" "b \<le> 1"
  shows "\<bar>num_mul (binary64 c) (num_div (of_nat k) 100) - c * (of_nat k / 100)\<bar> \<le> 3 / 2 ^ 53"
    and "0 \<le> num_mul (binary64 c) (num_div (of_nat k) 100)"
    and "num_mul (binary64 c) (num_div (of_nat k) 100) \<le> b"
proof -
  define s where "s = num_div (of_nat k) 100"
  note s = sub_score_facts [OF k, folded s_def]
  have w0: "0 \<le> binary64 c" by (rule binary64_nonneg [OF c(1)])
  have prod: "0 \<le> binary64 c * s" "binary64 c * s \<le> b"
    using w0 s(2,3) w(2) mult_left_le [of s "binary64 c"] by (auto intro: order_trans)
  have "\<bar>binary64 (binary64 c * s) - binary64 c * s\<bar> \<le> 1 / 2 ^ 53"
    using prod w(3) by (intro binary64_error) auto
  moreover have "\<bar>binary64 c * s - c * (of_nat k / 100)\<bar> \<le> 2 * (1 / 2 ^ 53)"
    by (rule product_error [OF w(1) s(1) s(2) s(3) c])
  ultimately show "\<bar>num_mul (binary64 c) (num_div (of_nat k) 100) - c * (of_nat k / 100)\<bar> \<le> 3 / 2 ^ 53"
    unfolding num_mul_def s_def [symmetric] by linarith
  show "0 \<le> num_mul (binary64 c) (num_div (of_nat k) 100)"
    unfolding num_mul_def s_def [symmetric] by (rule binary64_nonneg [OF prod(1)])
  show "num_mul (binary64 c) (num_div (of_nat k) 100) \<le> b"
    unfolding num_mul_def s_def [symmetric]
    using num_mul_weight_mono [OF w0 s(3)] w(2) by (simp add: num_mul_def binary64_idem)
qed

lemma sum_facts:
  assumes "0 \<le> a" "0 \<le> m" "a + m \<le> b" "b < 2"
  shows "\<bar>num_add a m - (a + m)\<bar> \<le> 1 / 2 ^ 53" and "0 \<le> num_add a m"
    and "num_add a m \<le> binary64 b"
proof -
  show "\<bar>num_add a m - (a + m)\<bar> \<le> 1 / 2 ^ 53"
    unfolding num_add_def using assms by (intro binary64_error) auto
  show "0 \<le> num_add a m"
    unfolding num_add_def using assms by (intro binary64_nonneg) auto
  show "num_add a m \<le> binary64 b"
    unfolding num_add_def by (rule binary64_mono [OF assms(3)])
qed

lemma composite_accuracy:
  assumes n: "normalizeText text1 \<noteq> []" "normalizeText text2 \<noteq> []"
    and k: "fuzz_ratio fz (normalizeText text1) (normalizeText text2) \<le> 100"
      "fuzz_partial_ratio fz (normalizeText text1) (normalizeText text2) \<le> 100"
      "fuzz_token_sort_ratio fz (normalizeText text1) (normalizeText text2) \<le> 100"
      "fuzz_token_set_ratio fz (normalizeText text1) (normalizeText text2) \<le> 100"
  shows "\<bar>composite (calculateCompositeSimilarity fz text1 text2)
           - (4 / 10 * (of_nat (fuzz_ratio fz (normalizeText text1) (normalizeText text2)) / 100)
            + 2 / 10 * (of_nat (fuzz_partial_ratio fz (normalizeText text1) (normalizeText text2)) / 100)
            + 2 / 10 * (of_nat (fuzz_token_sort_ratio fz (normalizeText text1) (normalizeText text2)) / 100)
            + 2 / 10 * (of_nat (fuzz_token_set_ratio fz (normalizeText text1) (normalizeText text2)) / 100))\<bar>
         \<le> 1 / 2 ^ 49"
proof -
  define k0 where "k0 = fuzz_ratio fz (normalizeText text1) (normalizeText text2)"
  define k1 where "k1 = fuzz_partial_ratio fz (normalizeText text1) (normalizeText text2)"
  define k2 where "k2 = fuzz_token_sort_ratio fz (normalizeText text1) (normalizeText text2)"
  define k3 where "k3 = fuzz_token_set_ratio fz (normalizeText text1) (normalizeText text2)"
  define m0 where "m0 = num_mul (binary64 (4 / 10)) (num_div (of_nat k0) 100)"
  define m1 where "m1 = num_mul (binary64 (2 / 10)) (num_div (of_nat k1) 100)"
  define m2 where "m2 = num_mul (binary64 (2 / 10)) (num_div (of_nat k2) 100)"
  define m3 where "m3 = num_mul (binary64 (2 / 10)) (num_div (of_nat k3) 100)"
  have comp: "composite (calculateCompositeSimilarity fz text1 text2) =
      num_add (num_add (num_add m0 m1) m2) m3"
    unfolding composite_unfold calculateSimilarity_methods [OF n]
    by (simp only: m0_def m1_def m2_def m3_def k0_def k1_def k2_def k3_def)
  have t0: "\<bar>m0 - 4 / 10 * (of_nat k0 / 100)\<bar> \<le> 3 / 2 ^ 53" "0 \<le> m0" "m0 \<le> 1 / 2"
    unfolding m0_def
    using term_facts [of k0 "4 / 10" "1 / 2"] k(1) weight_facts(1,2) by (simp_all add: k0_def)
  have t1: "\<bar>m1 - 2 / 10 * (of_nat k1 / 100)\<bar> \<le> 3 / 2 ^ 53" "0 \<le> m1" "m1 \<le> 1 / 4"
    unfolding m1_def
    using term_facts [of k1 "2 / 10" "1 / 4"] k(2) weight_facts(3,4) by (simp_all add: k1_def)
  have t2: "\<bar>m2 - 2 / 10 * (of_nat k2 / 100)\<bar> \<le> 3 / 2 ^ 53" "0 \<le> m2" "m2 \<le> 1 / 4"
    unfolding m2_def
    using term_facts [of k2 "2 / 10" "1 / 4"] k(3) weight_facts(3,4) by (simp_all add: k2_def)
  have t3: "\<bar>m3 - 2 / 10 * (of_nat k3 / 100)\<bar> \<le> 3 / 2 ^ 53" "0 \<le> m3" "m3 \<le> 1 / 4"
    unfolding m3_def
    using term_facts [of k3 "2 / 10" "1 / 4"] k(4) weight_facts(3,4) by (simp_all add: k3_def)
  have a1: "\<bar>num_add m0 m1 - (m0 + m1)\<bar> \<le> 1 / 2 ^ 53" "0 \<le> num_add m0 m1"
    "num_add m0 m1 \<le> 3 / 4"
    using sum_facts [of m0 m1 "3 / 4"] t0 t1 by (simp_all add: binary64_three_quarters)
  have a2: "\<bar>num_add (num_add m0 m1) m2 - (num_add m0 m1 + m2)\<bar> \<le> 1 / 2 ^ 53"
    "0 \<le> num_add (num_add m0 m1) m2" "num_add (num_add m0 m1) m2 \<le> 1"
    using sum_facts [of "num_add m0 m1" m2 1] a1 t2 by (simp_all add: binary64_one)
  have a3: "\<bar>num_add (num_add (num_add m0 m1) m2) m3 - (num_add (num_add m0 m1) m2 + m3)\<bar>
      \<le> 1 / 2 ^ 53"
    using sum_facts(1) [of "num_add (num_add m0 m1) m2" m3 "5 / 4"] a2 t3 by simp
  have "\<bar>num_add (num_add (num_add m0 m1) m2) m3
      - (4 / 10 * (of_nat k0 / 100) + 2 / 10 * (of_nat k1 / 100)
         + 2 / 10 * (of_nat k2 / 100) + 2 / 10 * (of_nat k3 / 100))\<bar> \<le> 15 / 2 ^ 53"
    using t0(1) t1(1) t2(1) t3(1) a1(1) a2(1) a3 by linarith
  also have "(15::rat) / 2 ^ 53 \<le> 1 / 2 ^ 49" by simp
  finally show ?thesis
    by (simp only: comp k0_def k1_def k2_def k3_def)
qed

text \<open>
  Claim C5. If either text normalises to the empty string (which covers \<open>null\<close>,
  \<open>undefined\<close> and the empty string), the scorer returns the composite 0 and the four
  sub-scores 0. Otherwise each sub-score is the metric of the library on the two normal
  forms, divided by 100, and the composite is 0.4 times the ratio sub-score plus 0.2 times
  each of the three others, summed from the left in binary64 arithmetic as the expression
  is evaluated in JavaScript; for metrics of at most 100 it differs from the exact value
  of that sum by at most \<open>1 / 2 ^ 49\<close>.
\<close>

theorem composite_formula:
  "(normalizeText text1 = [] \<or> normalizeText text2 = [] \<longrightarrow>
      calculateCompositeSimilarity fz text1 text2 =
        \<lparr> composite = 0,
          individual = \<lparr> ratio = 0, partial_ratio = 0, token_sort_ratio = 0,
                         token_set_ratio = 0 \<rparr> \<rparr>)
   \<and> (normalizeText text1 \<noteq> [] \<and> normalizeText text2 \<noteq> [] \<longrightarrow>
      (let a = normalizeText text1; b = normalizeText text2;
           r = calculateCompositeSimilarity fz text1 text2
       in ratio (individual r) = num_div (of_nat (fuzz_ratio fz a b)) 100
        \<and> partial_ratio (individual r) = num_div (of_nat (fuzz_partial_ratio fz a b)) 100
        \<and> token_sort_ratio (individual r) = num_div (of_nat (fuzz_token_sort_ratio fz a b)) 100
        \<and> token_set_ratio (individual r) = num_div (of_nat (fuzz_token_set_ratio fz a b)) 100
        \<and> composite r =
            num_add (num_add (num_add
              (num_mul (binary64 (4 / 10)) (ratio (individual r)))
              (num_mul (binary64 (2 / 10)) (partial_ratio (individual r))))
              (num_mul (binary64 (2 / 10)) (token_sort_ratio (individual r))))
              (num_mul (binary64 (2 / 10)) (token_set_ratio (individual r)))))
   \<and> (normalizeText text1 \<noteq> [] \<and> normalizeText text2 \<noteq> []
        \<and> fuzz_ratio fz (normalizeText text1) (normalizeText text2) \<le> 100
        \<and> fuzz_partial_ratio fz (normalizeText text1) (normalizeText text2) \<le> 100
        \<and> fuzz_token_sort_ratio fz (normalizeText text1) (normalizeText text2) \<le> 100
        \<and> fuzz_token_set_ratio fz (normalizeText text1) (normalizeText text2) \<le> 100 \<longrightarrow>
      \<bar>composite (calculateCompositeSimilarity fz text1 text2)
         - (4 / 10 * (of_nat (fuzz_ratio fz (normalizeText text1) (normalizeText text2)) / 100)
          + 2 / 10 * (of_nat (fuzz_partial_ratio fz (normalizeText text1) (normalizeText text2)) / 100)
          + 2 / 10 * (of_nat (fuzz_token_sort_ratio fz (normalizeText text1) (normalizeText text2)) / 100)
          + 2 / 10 * (of_nat (fuzz_token_set_ratio fz (normalizeText text1) (normalizeText text2)) / 100))\<bar>
       \<le> 1 / 2 ^ 49)"
proof (intro conjI impI)
  assume "normalizeText text1 = [] \<or> normalizeText text2 = []"
  then show "calculateCompositeSimilarity fz text1 text2 =
        \<lparr> composite = 0,
          individual = \<lparr> ratio = 0, partial_ratio = 0, token_sort_ratio = 0,
                         token_set_ratio = 0 \<rparr> \<rparr>"
    by (rule composite_empty)
next
  assume ne: "normalizeText text1 \<noteq> [] \<and> normalizeText text2 \<noteq> []"
  then have n1: "normalizeText text1 \<noteq> []" and n2: "normalizeText text2 \<noteq> []" by auto
  show "let a = normalizeText text1; b = normalizeText text2;
           r = calculateCompositeSimilarity fz text1 text2
       in ratio (individual r) = num_div (of_nat (fuzz_ratio fz a b)) 100
        \<and> partial_ratio (individual r) = num_div (of_nat (fuzz_partial_ratio fz a b)) 100
        \<and> token_sort_ratio (individual r) = num_div (of_nat (fuzz_token_sort_ratio fz a b)) 100
        \<and> token_set_ratio (individual r) = num_div (of_nat (fuzz_token_set_ratio fz a b)) 100
        \<and> composite r =
            num_add (num_add (num_add
              (num_mul (binary64 (4 / 10)) (ratio (individual r)))
              (num_mul (binary64 (2 / 10)) (partial_ratio (individual r))))
              (num_mul (binary64 (2 / 10)) (token_sort_ratio (individual r))))
              (num_mul (binary64 (2 / 10)) (token_set_ratio (individual r)))"
    unfolding Let_def
    by (simp add: individual_unfold composite_unfold calculateSimilarity_methods [OF n1 n2])
next
  assume a: "normalizeText text1 \<noteq> [] \<and> normalizeText text2 \<noteq> []
        \<and> fuzz_ratio fz (normalizeText text1) (normalizeText text2) \<le> 100
        \<and> fuzz_partial_ratio fz (normalizeText text1) (normalizeText text2) \<le> 100
        \<and> fuzz_token_sort_ratio fz (normalizeText text1) (normalizeText text2) \<le> 100
        \<and> fuzz_token_set_ratio fz (normalizeText text1) (normalizeText text2) \<le> 100"
  show "\<bar>composite (calculateCompositeSimilarity fz text1 text2)
         - (4 / 10 * (of_nat (fuzz_ratio fz (normalizeText text1) (normalizeText text2)) / 100)
          + 2 / 10 * (of_nat (fuzz_partial_ratio fz (normalizeText text1) (normalizeText text2)) / 100)
          + 2 / 10 * (of_nat (fuzz_token_sort_ratio fz (normalizeText text1) (normalizeText text2)) / 100)
          + 2 / 10 * (of_nat (fuzz_token_set_ratio fz (normalizeText text1) (normalizeText text2)) / 100))\<bar>
       \<le> 1 / 2 ^ 49"
    using a by (intro composite_accuracy) blast+
qed

lemma composite_le_one:
  assumes "\<forall>a b. fuzz_ratio fz a b \<le> 100 \<and> fuzz_partial_ratio fz a b \<le> 100
             \<and> fuzz_token_sort_ratio fz a b \<le> 100 \<and> fuzz_token_set_ratio fz a b \<le> 100"
  shows "composite (calculateCompositeSimilarity fz text1 text2) \<le> 1"
proof -
  note le = calculateSimilarity_le_one [OF assms, of text1 text2]
  have "composite (calculateCompositeSimilarity fz text1 text2) \<le>
      num_add (num_add (num_add (binary64 (4 / 10)) (binary64 (2 / 10))) (binary64 (2 / 10)))
        (binary64 (2 / 10))"
    unfolding composite_unfold
    using num_mul_weight_mono [OF weight_nonneg(1) le] num_mul_weight_mono [OF weight_nonneg(2) le]
    by (intro num_add_mono) (simp_all add: binary64_idem)
  then show ?thesis using weights_sum_one by simp
qed

lemma composite_identical:
  assumes "normalizeText text \<noteq> []"
    and "fuzz_ratio fz (normalizeText text) (normalizeText text) = 100"
    and "fuzz_partial_ratio fz (normalizeText text) (normalizeText text) = 100"
    and "fuzz_token_sort_ratio fz (normalizeText text) (normalizeText text) = 100"
    and "fuzz_token_set_ratio fz (normalizeText text) (normalizeText text) = 100"
  shows "composite (calculateCompositeSimilarity fz text text) = 1"
proof -
  have one: "num_div (of_nat 100) 100 = 1" by (simp add: num_div_def binary64_one)
  have w: "num_mul (binary64 w) 1 = binary64 w" for w by (simp add: num_mul_def binary64_idem)
  show ?thesis
    unfolding composite_unfold
    by (simp only: calculateSimilarity_methods [OF assms(1) assms(1)] assms(2-5) one w weights_sum_one)
qed

lemma normalize_bangs: "normalizeText (Some ''!!!'') = []"
  by code_simp

lemma normalize_diabetes: "normalizeText (Some ''diabetes mellitus'') = ''diabetes mellitus''"
  by code_simp

text \<open>
  The text \<open>!!!\<close> is not empty, but its normal form is: scored against itself it gets the
  composite 0, whatever the library returns.
\<close>

theorem identical_text_counterexample:
  "''!!!'' \<noteq> [] \<and> composite (calculateCompositeSimilarity exact_fuzz (Some ''!!!'') (Some ''!!!'')) = 0
   \<and> composite (calculateCompositeSimilarity exact_fuzz (Some ''!!!'') (Some ''!!!'')) \<noteq> 1"
  using composite_empty [of "Some ''!!!''" "Some ''!!!''" exact_fuzz] by (simp add: normalize_bangs)

text \<open>
  Claim C7, amended. For every text whose normal form is not empty and on which the four
  metrics of the library return 100 for that normal form against itself, the composite of
  the text against itself is 1. When the metrics never exceed 100, no pair of texts has a
  composite above 1.
\<close>

theorem identical_text_scores_one:
  "(normalizeText (Some T) \<noteq> []
      \<and> fuzz_ratio fz (normalizeText (Some T)) (normalizeText (Some T)) = 100
      \<and> fuzz_partial_ratio fz (normalizeText (Some T)) (normalizeText (Some T)) = 100
      \<and> fuzz_token_sort_ratio fz (normalizeText (Some T)) (normalizeText (Some T)) = 100
      \<and> fuzz_token_set_ratio fz (normalizeText (Some T)) (normalizeText (Some T)) = 100
    \<longrightarrow> composite (calculateCompositeSimilarity fz (Some T) (Some T)) = 1)
   \<and> ((\<forall>a b. fuzz_ratio fz a b \<le> 100 \<and> fuzz_partial_ratio fz a b \<le> 100
             \<and> fuzz_token_sort_ratio fz a b \<le> 100 \<and> fuzz_token_set_ratio fz a b \<le> 100)
    \<longrightarrow> composite (calculateCompositeSimilarity fz text1 text2) \<le> 1)"
  using composite_identical [of "Some T" fz] composite_le_one [of fz text1 text2] by blast

theorem identical_text_scores_one_witness:
  "normalizeText (Some ''diabetes mellitus'') \<noteq> []
   \<and> composite (calculateCompositeSimilarity exact_fuzz
        (Some ''diabetes mellitus'') (Some ''diabetes mellitus'')) = 1
   \<and> composite (calculateCompositeSimilarity exact_fuzz
        (Some ''diabetes mellitus'') (Some ''diabetes'')) \<le> 1"
  using identical_text_scores_one [of "''diabetes mellitus''" exact_fuzz
      "Some ''diabetes mellitus''" "Some ''diabetes''"]
  by (simp add: normalize_diabetes exact_fuzz_def)

theorem composite_formula_witness:
  "normalizeText (Some ''!!!'') = []
   \<and> composite (calculateCompositeSimilarity exact_fuzz (Some ''!!!'') (Some ''diabetes mellitus'')) = 0
   \<and> normalizeText (Some ''diabetes mellitus'') \<noteq> []
   \<and> fuzz_ratio exact_fuzz ''diabetes mellitus'' ''diabetes mellitus'' \<le> 100
   \<and> ratio (individual (calculateCompositeSimilarity exact_fuzz
        (Some ''diabetes mellitus'') (Some ''diabetes mellitus''))) = num_div 100 100
   \<and> \<bar>composite (calculateCompositeSimilarity exact_fuzz
        (Some ''diabetes mellitus'') (Some ''diabetes mellitus'')) - 1\<bar> \<le> 1 / 2 ^ 49"
proof -
  note empty = composite_formula [of "Some ''!!!''" "Some ''diabetes mellitus''" exact_fuzz]
  note same = composite_formula [of "Some ''diabetes mellitus''" "Some ''diabetes mellitus''"
      exact_fuzz]
  have zero: "composite (calculateCompositeSimilarity exact_fuzz (Some ''!!!'')
      (Some ''diabetes mellitus'')) = 0"
    using empty by (simp add: normalize_bangs)
  have ne: "normalizeText (Some ''diabetes mellitus'') \<noteq> []"
    by (simp add: normalize_diabetes)
  have le: "fuzz_ratio exact_fuzz ''diabetes mellitus'' ''diabetes mellitus'' \<le> 100"
    by (simp add: exact_fuzz_def)
  from same ne have "ratio (individual (calculateCompositeSimilarity exact_fuzz
        (Some ''diabetes mellitus'') (Some ''diabetes mellitus''))) =
      num_div (of_nat (fuzz_ratio exact_fuzz (normalizeText (Some ''diabetes mellitus'')) (normalizeText (Some ''diabetes mellitus'')))) 100"
    unfolding Let_def by blast
  then have sub: "ratio (individual (calculateCompositeSimilarity exact_fuzz
        (Some ''diabetes mellitus'') (Some ''diabetes mellitus''))) = num_div 100 100"
    by (simp add: exact_fuzz_def)
  have hyps: "(normalizeText (Some ''diabetes mellitus'')) \<noteq> [] \<and> (normalizeText (Some ''diabetes mellitus'')) \<noteq> []
      \<and> fuzz_ratio exact_fuzz (normalizeText (Some ''diabetes mellitus'')) (normalizeText (Some ''diabetes mellitus'')) \<le> 100
      \<and> fuzz_partial_ratio exact_fuzz (normalizeText (Some ''diabetes mellitus'')) (normalizeText (Some ''diabetes mellitus'')) \<le> 100
      \<and> fuzz_token_sort_ratio exact_fuzz (normalizeText (Some ''diabetes mellitus'')) (normalizeText (Some ''diabetes mellitus'')) \<le> 100
      \<and> fuzz_token_set_ratio exact_fuzz (normalizeText (Some ''diabetes mellitus'')) (normalizeText (Some ''diabetes mellitus'')) \<le> 100"
    by (simp add: normalize_diabetes exact_fuzz_def)
  have exact: "4 / 10 * (of_nat (fuzz_ratio exact_fuzz (normalizeText (Some ''diabetes mellitus'')) (normalizeText (Some ''diabetes mellitus''))) / 100)
      + 2 / 10 * (of_nat (fuzz_partial_ratio exact_fuzz (normalizeText (Some ''diabetes mellitus'')) (normalizeText (Some ''diabetes mellitus''))) / 100)
      + 2 / 10 * (of_nat (fuzz_token_sort_ratio exact_fuzz (normalizeText (Some ''diabetes mellitus'')) (normalizeText (Some ''diabetes mellitus''))) / 100)
      + 2 / 10 * (of_nat (fuzz_token_set_ratio exact_fuzz (normalizeText (Some ''diabetes mellitus'')) (normalizeText (Some ''diabetes mellitus''))) / 100) = (1::rat)"
    by (simp add: exact_fuzz_def)
  from same hyps have "\<bar>composite (calculateCompositeSimilarity exact_fuzz
        (Some ''diabetes mellitus'') (Some ''diabetes mellitus''))
      - (4 / 10 * (of_nat (fuzz_ratio exact_fuzz (normalizeText (Some ''diabetes mellitus'')) (normalizeText (Some ''diabetes mellitus''))) / 100)
      + 2 / 10 * (of_nat (fuzz_partial_ratio exact_fuzz (normalizeText (Some ''diabetes mellitus'')) (normalizeText (Some ''diabetes mellitus''))) / 100)
      + 2 / 10 * (of_nat (fuzz_token_sort_ratio exact_fuzz (normalizeText (Some ''diabetes mellitus'')) (normalizeText (Some ''diabetes mellitus''))) / 100)
      + 2 / 10 * (of_nat (fuzz_token_set_ratio exact_fuzz (normalizeText (Some ''diabetes mellitus'')) (normalizeText (Some ''diabetes mellitus''))) / 100))\<bar> \<le> 1 / 2 ^ 49"
    by blast
  then have acc: "\<bar>composite (calculateCompositeSimilarity exact_fuzz
        (Some ''diabetes mellitus'') (Some ''diabetes mellitus'')) - 1\<bar> \<le> 1 / 2 ^ 49"
    by (simp only: exact)
  show ?thesis
    using normalize_bangs zero ne le sub acc by (intro conjI)
qed

subsection \<open>The match ranker\<close>

lemma set_insert_by: "set (insert_by cmp x ys) = insert x (set ys)"
  by (induction ys) auto

lemma set_js_sort: "set (js_sort cmp xs) = set xs"
  unfolding js_sort_def by (induction xs) (auto simp: set_insert_by)

lemma length_insert_by: "length (insert_by cmp x ys) = Suc (length ys)"
  by (induction ys) auto

lemma length_js_sort: "length (js_sort cmp xs) = length xs"
  unfolding js_sort_def by (induction xs) (auto simp: length_insert_by)

lemma by_score_desc_sign:
  assumes "on_grid (similarity_score a)" "on_grid (similarity_score b)"
  shows "by_score_desc a b \<le> 0 \<longleftrightarrow> similarity_score b \<le> similarity_score a"
  unfolding by_score_desc_def num_sub_def by (rule binary64_sub_sign [OF assms])

lemma insert_by_score_desc:
  assumes "score_desc ys" "on_grid (similarity_score x)" "\<forall>y \<in> set ys. on_grid (similarity_score y)"
  shows "score_desc (insert_by by_score_desc x ys)"
  using assms
proof (induction ys)
  case Nil
  then show ?case by (simp add: score_desc_def)
next
  case (Cons y ys)
  show ?case
  proof (cases "by_score_desc x y \<le> 0")
    case True
    then have "similarity_score y \<le> similarity_score x"
      using by_score_desc_sign [of x y] Cons.prems by simp
    then show ?thesis using True Cons.prems(1) by (fastforce simp: score_desc_def)
  next
    case False
    then have "similarity_score x \<le> similarity_score y"
      using by_score_desc_sign [of x y] Cons.prems by simp
    moreover have "score_desc (insert_by by_score_desc x ys)"
      using Cons by (simp add: score_desc_def)
    ultimately show ?thesis
      using False Cons.prems(1) by (auto simp: score_desc_def set_insert_by)
  qed
qed

lemma js_sort_score_desc:
  assumes "\<forall>m \<in> set ms. on_grid (similarity_score m)"
  shows "score_desc (js_sort by_score_desc ms)"
  using assms
proof (induction ms)
  case Nil
  then show ?case by (simp add: js_sort_def score_desc_def)
next
  case (Cons m ms)
  have "score_desc (js_sort by_score_desc ms)" using Cons by simp
  moreover have "\<forall>y \<in> set (js_sort by_score_desc ms). on_grid (similarity_score y)"
    using Cons.prems by (simp add: set_js_sort)
  ultimately have "score_desc (insert_by by_score_desc m (js_sort by_score_desc ms))"
    using Cons.prems by (intro insert_by_score_desc) auto
  then show ?case by (simp add: js_sort_def)
qed

lemma filter_insert_by:
  assumes "score_desc ys" "on_grid (similarity_score x)" "\<forall>y \<in> set ys. on_grid (similarity_score y)"
  shows "filter (\<lambda>m. similarity_score m = s) (insert_by by_score_desc x ys) =
         filter (\<lambda>m. similarity_score m = s) (x # ys)"
  using assms
proof (induction ys)
  case Nil
  then show ?case by simp
next
  case (Cons y ys)
  show ?case
  proof (cases "by_score_desc x y \<le> 0")
    case True
    then show ?thesis by simp
  next
    case False
    then have lt: "similarity_score x < similarity_score y"
      using by_score_desc_sign [of x y] Cons.prems by simp
    have ih: "filter (\<lambda>m. similarity_score m = s) (insert_by by_score_desc x ys) =
         filter (\<lambda>m. similarity_score m = s) (x # ys)"
      using Cons by (simp add: score_desc_def)
    show ?thesis
    proof (cases "similarity_score x = s")
      case True
      then have "similarity_score y \<noteq> s" using lt by simp
      then show ?thesis using False ih by simp
    next
      case a: False
      then show ?thesis using False ih by simp
    qed
  qed
qed

lemma js_sort_stable:
  assumes "\<forall>m \<in> set ms. on_grid (similarity_score m)"
  shows "filter (\<lambda>m. similarity_score m = s) (js_sort by_score_desc ms) =
         filter (\<lambda>m. similarity_score m = s) ms"
  using assms
proof (induction ms)
  case Nil
  then show ?case by (simp add: js_sort_def)
next
  case (Cons m ms)
  have sorted: "score_desc (js_sort by_score_desc ms)"
    using Cons.prems by (intro js_sort_score_desc) simp
  have grid: "\<forall>y \<in> set (js_sort by_score_desc ms). on_grid (similarity_score y)"
    using Cons.prems by (simp add: set_js_sort)
  have "filter (\<lambda>m. similarity_score m = s) (js_sort by_score_desc (m # ms)) =
        filter (\<lambda>m. similarity_score m = s) (m # js_sort by_score_desc ms)"
    using filter_insert_by [OF sorted _ grid, of m s] Cons.prems by (simp add: js_sort_def)
  then show ?case using Cons by simp
qed

lemma slice0_take: "\<exists>k. slice0 xs n = take k xs"
  by (auto simp: slice0_def Let_def)

lemma set_slice0: "set (slice0 xs n) \<subseteq> set xs"
  using slice0_take [of xs n] by (auto dest: in_set_takeD)

lemma prefix_slice0: "prefix (slice0 xs n) xs"
  using slice0_take [of xs n] by (auto simp: take_is_prefix)

lemma length_slice0: "0 \<le> n \<Longrightarrow> int (length (slice0 xs n)) \<le> n"
  by (simp add: slice0_def Let_def)

lemma composite_on_grid: "on_grid (composite (calculateCompositeSimilarity fz text1 text2))"
  unfolding composite_unfold num_add_def by (rule binary64_on_grid)

lemma similarity_score_make_match:
  "similarity_score (make_match fz c text t) =
     composite (calculateCompositeSimilarity fz (Some text) (Some (createSearchableText t)))"
  by (simp add: make_match_def Let_def)

lemma confidence_make_match:
  "confidence (make_match fz c text t) = getConfidenceLevel (similarity_score (make_match fz c text t))"
  by (simp add: make_match_def Let_def)

lemma collect_matches_props:
  assumes "m \<in> set (collect_matches fz c ts)"
  shows "similarityThreshold \<le> similarity_score m"
    and "on_grid (similarity_score m)"
    and "confidence m = getConfidenceLevel (similarity_score m)"
    and "\<exists>t \<in> set ts. m = make_match fz c (createSearchableText c) t"
  using assms
  by (auto simp: collect_matches_def Let_def similarity_score_make_match composite_on_grid
      confidence_make_match)

lemma set_findBestMatches:
  "set (findBestMatches fz c ts mr) \<subseteq> set (collect_matches fz c ts)"
  unfolding findBestMatches_def using set_slice0 set_js_sort by fastforce

lemma exact_fuzz_composite:
  "composite (calculateCompositeSimilarity exact_fuzz text1 text2) =
     (if normalizeText text1 \<noteq> [] \<and> normalizeText text1 = normalizeText text2 then 1 else 0)"
proof (cases "normalizeText text1 = [] \<or> normalizeText text2 = []")
  case True
  then show ?thesis using composite_empty [OF True, of exact_fuzz] by auto
next
  case False
  then have n1: "normalizeText text1 \<noteq> []" and n2: "normalizeText text2 \<noteq> []" by auto
  show ?thesis
  proof (cases "normalizeText text1 = normalizeText text2")
    case True
    have "composite (calculateCompositeSimilarity exact_fuzz text1 text1) = 1"
      by (rule composite_identical [OF n1]) (simp_all add: exact_fuzz_def)
    moreover have "composite (calculateCompositeSimilarity exact_fuzz text1 text2) =
        composite (calculateCompositeSimilarity exact_fuzz text1 text1)"
      unfolding composite_unfold
      by (simp add: calculateSimilarity_methods [OF n1 n2] calculateSimilarity_methods [OF n1 n1] True)
    ultimately show ?thesis using n1 True by simp
  next
    case False
    have zero: "num_div 0 100 = 0" by (simp add: num_div_def binary64_zero)
    have "composite (calculateCompositeSimilarity exact_fuzz text1 text2) = 0"
      unfolding composite_unfold
      using False
      by (simp add: calculateSimilarity_methods [OF n1 n2] exact_fuzz_def zero num_mul_def
          num_add_def binary64_zero)
    then show ?thesis using False by simp
  qed
qed

lemma sample_texts:
  "createSearchableText sample_source = ''gastro-intestinal disorder''"
  "createSearchableText target_sm10 = ''Gastro-intestinal disorder''"
  "createSearchableText target_sm11 = ''Gastro Intestinal Disorder''"
  "createSearchableText target_sk00 = ''Head, brain, nerve disorders''"
  by code_simp+

lemma sample_normal_forms:
  "normalizeText (Some ''gastro-intestinal disorder'') = ''gastro intestinal disorder''"
  "normalizeText (Some ''Gastro-intestinal disorder'') = ''gastro intestinal disorder''"
  "normalizeText (Some ''Gastro Intestinal Disorder'') = ''gastro intestinal disorder''"
  "normalizeText (Some ''Head, brain, nerve disorders'') = ''head brain nerve disorders''"
  by code_simp+

lemma sample_scores:
  "similarity_score (make_match exact_fuzz sample_source ''gastro-intestinal disorder'' target_sm10) = 1"
  "similarity_score (make_match exact_fuzz sample_source ''gastro-intestinal disorder'' target_sm11) = 1"
  "similarity_score (make_match exact_fuzz sample_source ''gastro-intestinal disorder'' target_sk00) = 0"
  by (simp_all add: similarity_score_make_match exact_fuzz_composite sample_texts sample_normal_forms)

lemma threshold_facts:
  "similarityThreshold \<le> 1" "\<not> similarityThreshold \<le> 0" "highConfidenceThreshold \<le> 1"
  using thresholds_ordered by simp_all

lemma by_score_desc_equal: "similarity_score a = similarity_score b \<Longrightarrow> by_score_desc a b = 0"
  by (simp add: by_score_desc_def num_sub_def binary64_zero)

lemma sample_run_all:
  "findBestMatches exact_fuzz sample_source [target_sm10, target_sk00, target_sm11] None =
     [make_match exact_fuzz sample_source ''gastro-intestinal disorder'' target_sm10,
      make_match exact_fuzz sample_source ''gastro-intestinal disorder'' target_sm11]"
  by (simp add: findBestMatches_def collect_matches_def sample_texts sample_scores threshold_facts
      js_sort_def by_score_desc_equal slice0_def Let_def)

lemma sample_run_negative:
  "findBestMatches exact_fuzz sample_source [target_sm10, target_sk00, target_sm11] (Some (- 1)) =
     [make_match exact_fuzz sample_source ''gastro-intestinal disorder'' target_sm10]"
  by (simp add: findBestMatches_def collect_matches_def sample_texts sample_scores threshold_facts
      js_sort_def by_score_desc_equal slice0_def Let_def)

lemma sample_run_one:
  "findBestMatches exact_fuzz sample_source [target_sm10, target_sk00, target_sm11] (Some 1) =
     [make_match exact_fuzz sample_source ''gastro-intestinal disorder'' target_sm10]"
  by (simp add: findBestMatches_def collect_matches_def sample_texts sample_scores threshold_facts
      js_sort_def by_score_desc_equal slice0_def Let_def)

lemma sample_match_fields:
  "icd11_code (make_match exact_fuzz sample_source ''gastro-intestinal disorder'' target_sm10) = Some ''SM10''"
  "icd11_code (make_match exact_fuzz sample_source ''gastro-intestinal disorder'' target_sm11) = Some ''SM11''"
  "ayurveda_code (make_match exact_fuzz sample_source ''gastro-intestinal disorder'' target_sm10) = Some ''A''"
  "ayurveda_code (make_match exact_fuzz sample_source ''gastro-intestinal disorder'' target_sm11) = Some ''A''"
  "confidence (make_match exact_fuzz sample_source ''gastro-intestinal disorder'' target_sm10) = ''high''"
  "confidence (make_match exact_fuzz sample_source ''gastro-intestinal disorder'' target_sm11) = ''high''"
  by (simp_all add: confidence_make_match sample_scores getConfidenceLevel_def threshold_facts)
     (simp_all add: make_match_def Let_def target_sm10_def target_sm11_def sample_source_def
       blank_code_def or_else_def falsy_def)

text \<open>
  With \<open>maxResults = -1\<close> and two targets that reach the threshold, \<open>slice(0, -1)\<close> drops
  the last match and keeps one: more than \<open>maxResults\<close>.
\<close>

theorem findBestMatches_negative_counterexample:
  "length (findBestMatches exact_fuzz sample_source [target_sm10, target_sk00, target_sm11]
     (Some (- 1))) = 1
   \<and> \<not> int (length (findBestMatches exact_fuzz sample_source
          [target_sm10, target_sk00, target_sm11] (Some (- 1)))) \<le> - 1"
  by (simp add: sample_run_negative)

text \<open>
  Claim C2, amended. Every entry returned by \<open>findBestMatches\<close> is the match of one of the
  targets and has a composite score of at least the similarity threshold 0.6; no target
  whose composite score is strictly below the threshold appears in the output. When
  \<open>maxResults\<close> is absent at most 5 entries are returned, and when it is a non-negative
  integer at most \<open>maxResults\<close> entries are returned.
\<close>

theorem findBestMatches_bounds:
  "(\<forall>m \<in> set (findBestMatches fz ayurvedaCode icd11Codes maxResults).
      similarityThreshold \<le> similarity_score m
      \<and> (\<exists>t \<in> set icd11Codes.
            m = make_match fz ayurvedaCode (createSearchableText ayurvedaCode) t))
   \<and> (\<forall>t \<in> set icd11Codes.
        similarity_score (make_match fz ayurvedaCode (createSearchableText ayurvedaCode) t)
          < similarityThreshold
        \<longrightarrow> make_match fz ayurvedaCode (createSearchableText ayurvedaCode) t
              \<notin> set (findBestMatches fz ayurvedaCode icd11Codes maxResults))
   \<and> (maxResults = None \<longrightarrow>
        length (findBestMatches fz ayurvedaCode icd11Codes maxResults) \<le> 5)
   \<and> (\<forall>n. maxResults = Some n \<and> 0 \<le> n \<longrightarrow>
        int (length (findBestMatches fz ayurvedaCode icd11Codes maxResults)) \<le> n)"
proof (intro conjI ballI allI impI)
  fix m
  assume "m \<in> set (findBestMatches fz ayurvedaCode icd11Codes maxResults)"
  then have m: "m \<in> set (collect_matches fz ayurvedaCode icd11Codes)"
    using set_findBestMatches by blast
  show "similarityThreshold \<le> similarity_score m"
    by (rule collect_matches_props(1) [OF m])
  show "\<exists>t \<in> set icd11Codes. m = make_match fz ayurvedaCode (createSearchableText ayurvedaCode) t"
    by (rule collect_matches_props(4) [OF m])
next
  fix t
  assume "similarity_score (make_match fz ayurvedaCode (createSearchableText ayurvedaCode) t)
    < similarityThreshold"
  then have "make_match fz ayurvedaCode (createSearchableText ayurvedaCode) t
    \<notin> set (collect_matches fz ayurvedaCode icd11Codes)"
    using collect_matches_props(1) by fastforce
  then show "make_match fz ayurvedaCode (createSearchableText ayurvedaCode) t
    \<notin> set (findBestMatches fz ayurvedaCode icd11Codes maxResults)"
    using set_findBestMatches by blast
next
  assume "maxResults = None"
  then show "length (findBestMatches fz ayurvedaCode icd11Codes maxResults) \<le> 5"
    using length_slice0 [of 5 "js_sort by_score_desc (collect_matches fz ayurvedaCode icd11Codes)"]
    by (simp add: findBestMatches_def)
next
  fix n
  assume "maxResults = Some n \<and> 0 \<le> n"
  then show "int (length (findBestMatches fz ayurvedaCode icd11Codes maxResults)) \<le> n"
    using length_slice0 [of n "js_sort by_score_desc (collect_matches fz ayurvedaCode icd11Codes)"]
    by (simp add: findBestMatches_def)
qed

theorem findBestMatches_bounds_witness:
  "findBestMatches exact_fuzz sample_source [target_sm10, target_sk00, target_sm11] (Some 1) =
     [make_match exact_fuzz sample_source ''gastro-intestinal disorder'' target_sm10]
   \<and> similarityThreshold \<le> similarity_score
        (make_match exact_fuzz sample_source ''gastro-intestinal disorder'' target_sm10)
   \<and> similarity_score (make_match exact_fuzz sample_source ''gastro-intestinal disorder'' target_sk00)
        < similarityThreshold
   \<and> make_match exact_fuzz sample_source ''gastro-intestinal disorder'' target_sk00
        \<notin> set (findBestMatches exact_fuzz sample_source [target_sm10, target_sk00, target_sm11] (Some 1))
   \<and> (0::int) \<le> 1
   \<and> int (length (findBestMatches exact_fuzz sample_source
        [target_sm10, target_sk00, target_sm11] (Some 1))) \<le> 1
   \<and> length (findBestMatches exact_fuzz sample_source
        [target_sm10, target_sk00, target_sm11] None) \<le> 5"
  using findBestMatches_bounds [of exact_fuzz sample_source
      "[target_sm10, target_sk00, target_sm11]" "Some 1"]
    findBestMatches_bounds [of exact_fuzz sample_source
      "[target_sm10, target_sk00, target_sm11]" None]
  by (simp add: sample_run_one sample_texts sample_scores thresholds_ordered)

text \<open>
  Claim C3. The list returned by \<open>findBestMatches\<close> is in non-increasing order of the
  composite score, and for every score the returned entries with that score are, in this
  order, an initial segment of the candidates with that score in the order the targets
  were iterated: ties keep the target order.
\<close>

theorem findBestMatches_sorted_stable:
  "score_desc (findBestMatches fz ayurvedaCode icd11Codes maxResults)
   \<and> prefix
       (filter (\<lambda>m. similarity_score m = s) (findBestMatches fz ayurvedaCode icd11Codes maxResults))
       (filter (\<lambda>m. similarity_score m = s) (collect_matches fz ayurvedaCode icd11Codes))"
proof -
  define cs where "cs = collect_matches fz ayurvedaCode icd11Codes"
  define n where "n = (case maxResults of None \<Rightarrow> 5 | Some n \<Rightarrow> n)"
  have grid: "\<forall>m \<in> set cs. on_grid (similarity_score m)"
    using collect_matches_props(2) by (auto simp: cs_def)
  obtain k where k: "slice0 (js_sort by_score_desc cs) n = take k (js_sort by_score_desc cs)"
    using slice0_take by blast
  have fb: "findBestMatches fz ayurvedaCode icd11Codes maxResults = take k (js_sort by_score_desc cs)"
    using k by (simp add: findBestMatches_def cs_def n_def)
  have "score_desc (js_sort by_score_desc cs)" by (rule js_sort_score_desc [OF grid])
  then have "score_desc (take k (js_sort by_score_desc cs))"
    unfolding score_desc_def by (rule sorted_wrt_take)
  then have sorted: "score_desc (findBestMatches fz ayurvedaCode icd11Codes maxResults)"
    by (simp only: fb)
  have "prefix (filter (\<lambda>m. similarity_score m = s) (take k (js_sort by_score_desc cs)))
      (filter (\<lambda>m. similarity_score m = s) (js_sort by_score_desc cs))"
    by (intro filter_mono_prefix) (rule take_is_prefix)
  then have "prefix (filter (\<lambda>m. similarity_score m = s) (take k (js_sort by_score_desc cs)))
      (filter (\<lambda>m. similarity_score m = s) cs)"
    by (simp add: js_sort_stable [OF grid])
  then show ?thesis using sorted by (simp only: fb cs_def simp_thms)
qed

lemma findBestMatches_sorted_example:
  "map icd11_code (findBestMatches exact_fuzz sample_source
     [target_sm10, target_sk00, target_sm11] None) = [Some ''SM10'', Some ''SM11'']"
  by (simp add: sample_run_all sample_match_fields)

text \<open>
  Claim C4. Every entry returned by \<open>findBestMatches\<close> has the tier \<open>high\<close> exactly when
  its composite score is at least the high-confidence threshold 0.8, and the tier
  \<open>medium\<close> otherwise; the tier \<open>low\<close> never occurs in the output, although the classifier
  returns it for every score below the similarity threshold, such as 0.
\<close>

theorem findBestMatches_tiers:
  "(\<forall>m \<in> set (findBestMatches fz ayurvedaCode icd11Codes maxResults).
      (confidence m = ''high'' \<longleftrightarrow> highConfidenceThreshold \<le> similarity_score m)
      \<and> (confidence m = ''medium'' \<longleftrightarrow> similarity_score m < highConfidenceThreshold)
      \<and> confidence m \<noteq> ''low'')
   \<and> (\<forall>score. score < similarityThreshold \<longrightarrow> getConfidenceLevel score = ''low'')
   \<and> getConfidenceLevel 0 = ''low''"
proof (intro conjI ballI allI impI)
  fix m
  assume "m \<in> set (findBestMatches fz ayurvedaCode icd11Codes maxResults)"
  then have m: "m \<in> set (collect_matches fz ayurvedaCode icd11Codes)"
    using set_findBestMatches by blast
  note thr = collect_matches_props(1) [OF m] and conf = collect_matches_props(3) [OF m]
  show "confidence m = ''high'' \<longleftrightarrow> highConfidenceThreshold \<le> similarity_score m"
    using thr by (simp add: conf getConfidenceLevel_def)
  show "confidence m = ''medium'' \<longleftrightarrow> similarity_score m < highConfidenceThreshold"
    using thr by (auto simp: conf getConfidenceLevel_def)
  show "confidence m \<noteq> ''low''"
    using thr by (simp add: conf getConfidenceLevel_def)
next
  fix score :: number
  assume "score < similarityThreshold"
  then show "getConfidenceLevel score = ''low''"
    using thresholds_ordered(2) by (simp add: getConfidenceLevel_def)
next
  show "getConfidenceLevel 0 = ''low''"
    using thresholds_ordered by (simp add: getConfidenceLevel_def)
qed

theorem findBestMatches_tiers_witness:
  "findBestMatches exact_fuzz sample_source [target_sm10, target_sk00, target_sm11] (Some 1) =
     [make_match exact_fuzz sample_source ''gastro-intestinal disorder'' target_sm10]
   \<and> confidence (make_match exact_fuzz sample_source ''gastro-intestinal disorder'' target_sm10)
        = ''high''
   \<and> highConfidenceThreshold \<le> similarity_score
        (make_match exact_fuzz sample_source ''gastro-intestinal disorder'' target_sm10)
   \<and> (0::number) < similarityThreshold \<and> getConfidenceLevel 0 = ''low''"
  using findBestMatches_tiers [of exact_fuzz sample_source
      "[target_sm10, target_sk00, target_sm11]" "Some 1"]
  by (simp add: sample_run_one thresholds_ordered sample_scores)

subsection \<open>The table and the mapping generator\<close>

lemma col_id_new_row: "col_id (new_row n ps) = n"
  by (simp add: new_row_def)

lemma insert_mapping_cases:
  obtains (fault) msg where "insert_mapping replace ps w = (Inl (SqliteError msg), w\<lparr>faults := tl (faults w)\<rparr>)"
  | (skip) "\<not> replace" "insert_mapping replace ps w = (Inr (), w\<lparr>faults := tl (faults w)\<rparr>)"
  | (replaced) "replace" "p_namaste_code ps \<noteq> None" "p_icd11_code ps \<noteq> None"
      "insert_mapping replace ps w =
        (Inr (), w\<lparr>faults := tl (faults w),
                   rows := filter (\<lambda>old. pair_of old \<noteq> pair_of (new_row (next_id w) ps)) (rows w)
                            @ [new_row (next_id w) ps],
                   sequence := next_id w\<rparr>)"
  | (added) "\<not> replace" "p_namaste_code ps \<noteq> None" "p_icd11_code ps \<noteq> None"
      "pair_of (new_row (next_id w) ps) \<notin> pair_of ` set (rows w)"
      "insert_mapping replace ps w =
        (Inr (), w\<lparr>faults := tl (faults w), rows := rows w @ [new_row (next_id w) ps],
                   sequence := next_id w\<rparr>)"
proof (cases "\<exists>msg fs. faults w = Some msg # fs")
  case True
  then obtain msg fs where "faults w = Some msg # fs" by blast
  then have "insert_mapping replace ps w = (Inl (SqliteError msg), w\<lparr>faults := tl (faults w)\<rparr>)"
    by (simp add: insert_mapping_def Let_def)
  then show ?thesis by (rule fault)
next
  case False
  then have nf: "(case faults w of Some msg # x \<Rightarrow> a msg | _ \<Rightarrow> b) = b" 
    for a :: "string \<Rightarrow> (db_error + unit) \<times> world" and b
    by (auto split: list.splits option.splits)
  show ?thesis
  proof (cases "p_namaste_code ps = None \<or> p_icd11_code ps = None")
    case True
    show ?thesis
    proof (cases replace)
      case r: True
      have "insert_mapping replace ps w =
        (Inl (SqliteError ''SQLITE_CONSTRAINT: NOT NULL constraint failed''), w\<lparr>faults := tl (faults w)\<rparr>)"
        using True r by (simp add: insert_mapping_def Let_def nf)
      then show ?thesis by (rule fault)
    next
      case r: False
      have "insert_mapping replace ps w = (Inr (), w\<lparr>faults := tl (faults w)\<rparr>)"
        using True r by (simp add: insert_mapping_def Let_def nf)
      with r show ?thesis by (intro skip) auto
    qed
  next
    case present: False
    show ?thesis
    proof (cases replace)
      case True
      have "insert_mapping replace ps w =
        (Inr (), w\<lparr>faults := tl (faults w),
                   rows := filter (\<lambda>old. pair_of old \<noteq> pair_of (new_row (next_id w) ps)) (rows w)
                            @ [new_row (next_id w) ps],
                   sequence := next_id w\<rparr>)"
        using present True by (auto simp: insert_mapping_def Let_def nf col_id_new_row)
      with True present show ?thesis by (intro replaced) auto
    next
      case False
      show ?thesis
      proof (cases "pair_of (new_row (next_id w) ps) \<in> pair_of ` set (rows w)")
        case True
        then have "list_ex (\<lambda>old. pair_of old = pair_of (new_row (next_id w) ps)) (rows w)"
          by (auto simp: list_ex_iff)
        then have "insert_mapping replace ps w = (Inr (), w\<lparr>faults := tl (faults w)\<rparr>)"
          using present False by (simp add: insert_mapping_def Let_def nf)
        with False show ?thesis by (intro skip) auto
      next
        case nin: False
        then have "\<not> list_ex (\<lambda>old. pair_of old = pair_of (new_row (next_id w) ps)) (rows w)"
          unfolding list_ex_iff by (metis imageI)
        then have "insert_mapping replace ps w =
          (Inr (), w\<lparr>faults := tl (faults w), rows := rows w @ [new_row (next_id w) ps],
                   sequence := next_id w\<rparr>)"
          using present False by (auto simp: insert_mapping_def Let_def nf col_id_new_row)
        with False present nin show ?thesis by (intro added) auto
      qed
    qed
  qed
qed

lemma saveMappingToDatabase_cases:
  obtains (failed) err where
      "saveMappingToDatabase w m ow =
        (Inl err, w\<lparr>faults := tl (faults w),
                    console := console w @ [ErrorSavingMapping (message err)]\<rparr>)"
  | (skipped) "\<not> ow" "saveMappingToDatabase w m ow = (Inr (), w\<lparr>faults := tl (faults w)\<rparr>)"
  | (replaced) "ow" "ayurveda_code m \<noteq> None" "icd11_code m \<noteq> None"
      "saveMappingToDatabase w m ow =
        (Inr (), w\<lparr>faults := tl (faults w),
                   rows := filter (\<lambda>old. pair_of old \<noteq> pair_of (new_row (next_id w) (params_of m)))
                             (rows w) @ [new_row (next_id w) (params_of m)],
                   sequence := next_id w\<rparr>)"
  | (added) "\<not> ow" "ayurveda_code m \<noteq> None" "icd11_code m \<noteq> None"
      "pair_of (new_row (next_id w) (params_of m)) \<notin> pair_of ` set (rows w)"
      "saveMappingToDatabase w m ow =
        (Inr (), w\<lparr>faults := tl (faults w),
                   rows := rows w @ [new_row (next_id w) (params_of m)],
                   sequence := next_id w\<rparr>)"
proof (cases rule: insert_mapping_cases [of ow "params_of m" w])
  case (fault msg)
  then have "saveMappingToDatabase w m ow =
      (Inl (SqliteError msg), w\<lparr>faults := tl (faults w),
         console := console w @ [ErrorSavingMapping (message (SqliteError msg))]\<rparr>)"
    by (simp add: saveMappingToDatabase_def)
  then show ?thesis by (rule failed)
next
  case skip
  then have "saveMappingToDatabase w m ow = (Inr (), w\<lparr>faults := tl (faults w)\<rparr>)"
    by (simp add: saveMappingToDatabase_def)
  with skip(1) show ?thesis by (intro skipped) auto
next
  case replaced
  then show ?thesis
    using that(3) by (simp add: saveMappingToDatabase_def params_of_def)
next
  case added
  then show ?thesis
    using that(4) by (simp add: saveMappingToDatabase_def params_of_def)
qed

lemma save_failure:
  assumes "saveMappingToDatabase w m ow = (Inl err, w')"
  shows "rows w' = rows w" and "console w' = console w @ [ErrorSavingMapping (message err)]"
    and "faults w' = tl (faults w)"
  using assms by (cases rule: saveMappingToDatabase_cases [of w m ow]; simp; fail)+

lemma save_success_console:
  assumes "saveMappingToDatabase w m ow = (Inr u, w')"
  shows "console w' = console w"
  using assms by (cases rule: saveMappingToDatabase_cases [of w m ow]) auto

lemma unique_pairs_replace:
  assumes "unique_pairs rs" "pair_of r = p"
  shows "unique_pairs (filter (\<lambda>old. pair_of old \<noteq> p) rs @ [r])"
proof -
  have "distinct (map pair_of (filter (\<lambda>old. pair_of old \<noteq> p) rs))"
    using assms(1) unfolding unique_pairs_def by (rule distinct_map_filter)
  moreover have "p \<notin> set (map pair_of (filter (\<lambda>old. pair_of old \<noteq> p) rs))" by auto
  ultimately show ?thesis using assms(2) by (simp add: unique_pairs_def)
qed

lemma save_unique_pairs:
  assumes "unique_pairs (rows w)"
  shows "unique_pairs (rows (snd (saveMappingToDatabase w m ow)))"
proof (cases rule: saveMappingToDatabase_cases [of w m ow])
  case (failed err)
  then show ?thesis using assms by simp
next
  case skipped
  then show ?thesis using assms by simp
next
  case replaced
  then show ?thesis using unique_pairs_replace [OF assms refl] by simp
next
  case added
  then show ?thesis using assms by (simp add: unique_pairs_def)
qed

lemma save_all_unique_pairs:
  "unique_pairs (rows w) \<Longrightarrow> unique_pairs (rows (snd (save_all ow ms w)))"
proof (induction ms arbitrary: w)
  case Nil
  then show ?case by simp
next
  case (Cons m ms)
  obtain r w' where s: "saveMappingToDatabase w m ow = (r, w')" by (cases "saveMappingToDatabase w m ow")
  have u: "unique_pairs (rows w')" using save_unique_pairs [OF Cons.prems, of m ow] s by simp
  show ?case
  proof (cases r)
    case (Inl err)
    then show ?thesis using s u by simp
  next
    case (Inr v)
    then show ?thesis using s Cons.IH [OF u] by simp
  qed
qed

lemma save_all_append:
  "save_all ow (xs @ ys) w =
     (case save_all ow xs w of (Inl err, w') \<Rightarrow> (Inl err, w') | (Inr u, w') \<Rightarrow> save_all ow ys w')"
  by (induction xs arbitrary: w) (auto split: prod.splits sum.splits)

lemma process_matches_save:
  "process_matches True ow ms acc w =
     (case save_all ow ms w of (Inl err, w') \<Rightarrow> (Inl err, w') | (Inr u, w') \<Rightarrow> (Inr (acc @ ms), w'))"
  by (induction ms arbitrary: acc w) (auto split: prod.splits sum.splits)

lemma process_matches_no_save:
  "process_matches False ow ms acc w = (Inr (acc @ ms), w)"
  by (induction ms arbitrary: acc) auto

lemma process_codes_save:
  "process_codes fz True ow n ts cs acc w =
     (case save_all ow (concat (map (\<lambda>c. findBestMatches fz c ts (Some n)) cs)) w of
        (Inl err, w') \<Rightarrow> (Inl err, w')
      | (Inr u, w') \<Rightarrow> (Inr (acc @ concat (map (\<lambda>c. findBestMatches fz c ts (Some n)) cs)), w'))"
proof (induction cs arbitrary: acc w)
  case Nil
  then show ?case by simp
next
  case (Cons c cs)
  show ?case
    by (simp add: process_matches_save save_all_append Cons.IH split: prod.splits sum.splits)
qed

lemma process_codes_no_save:
  "process_codes fz False ow n ts cs acc w =
     (Inr (acc @ concat (map (\<lambda>c. findBestMatches fz c ts (Some n)) cs)), w)"
  by (induction cs arbitrary: acc) (auto simp: process_matches_no_save)

lemma generateMappings_save:
  assumes "saveToDatabase opts \<noteq> Some False"
  shows "generateMappings fz w cs ts opts =
     (case save_all (case overwriteExisting opts of None \<Rightarrow> False | Some b \<Rightarrow> b)
             (batch_matches fz cs ts opts) w of
        (Inl err, w') \<Rightarrow> (Inl err, w')
      | (Inr u, w') \<Rightarrow> (Inr (summarize (batch_matches fz cs ts opts)), w'))"
proof -
  have "(case saveToDatabase opts of None \<Rightarrow> True | Some b \<Rightarrow> b) = True"
    using assms by (cases "saveToDatabase opts") auto
  then show ?thesis
    by (simp add: generateMappings_def Let_def process_codes_save batch_matches_def
        split: prod.splits sum.splits)
qed

lemma generateMappings_no_save:
  assumes "saveToDatabase opts = Some False"
  shows "generateMappings fz w cs ts opts = (Inr (summarize (batch_matches fz cs ts opts)), w)"
  using assms by (simp add: generateMappings_def Let_def process_codes_no_save batch_matches_def)

lemma generateMappings_result:
  assumes "generateMappings fz w cs ts opts = (Inr r, w')"
  shows "r = summarize (batch_matches fz cs ts opts)"
proof (cases "saveToDatabase opts = Some False")
  case True
  then show ?thesis using assms by (simp add: generateMappings_no_save)
next
  case False
  then show ?thesis using assms
    by (auto simp: generateMappings_save split: prod.splits sum.splits)
qed

lemma generateMappings_unique_pairs:
  assumes "unique_pairs (rows w)"
  shows "unique_pairs (rows (snd (generateMappings fz w cs ts opts)))"
proof (cases "saveToDatabase opts = Some False")
  case True
  then show ?thesis using assms by (simp add: generateMappings_no_save)
next
  case False
  define ow where "ow = (case overwriteExisting opts of None \<Rightarrow> False | Some b \<Rightarrow> b)"
  have "snd (generateMappings fz w cs ts opts) = snd (save_all ow (batch_matches fz cs ts opts) w)"
    using False by (simp add: generateMappings_save ow_def split: prod.splits sum.splits)
  then show ?thesis using save_all_unique_pairs [OF assms] by simp
qed

lemma params_of_simps:
  "p_namaste_code (params_of m) = ayurveda_code m"
  "p_icd11_code (params_of m) = icd11_code m"
  "p_equivalence (params_of m) = ''equivalent''"
  "p_confidence (params_of m) = similarity_score m"
  "p_mapping_type (params_of m) = ''automatic''"
  "p_similarity_score (params_of m) = similarity_score m"
  "p_mapping_details (params_of m) =
     \<lparr> details_similarity = similarity_details m, details_ayurveda_text = ayurveda_text m,
       details_icd11_text = icd11_text m \<rparr>"
  by (simp_all add: params_of_def)

lemma pair_of_new_row:
  "pair_of (new_row n (params_of m)) = (the (ayurveda_code m), the (icd11_code m))"
  by (simp add: pair_of_def new_row_def params_of_def)

lemma new_row_columns:
  "col_namaste_code (new_row n (params_of m)) = the (ayurveda_code m)"
  "col_icd11_code (new_row n (params_of m)) = the (icd11_code m)"
  "col_equivalence (new_row n (params_of m)) = Some ''equivalent''"
  "col_confidence (new_row n (params_of m)) = Some (similarity_score m)"
  "col_mapping_type (new_row n (params_of m)) = Some ''automatic''"
  "col_similarity_score (new_row n (params_of m)) = Some (similarity_score m)"
  "col_mapping_details (new_row n (params_of m)) =
     Some \<lparr> details_similarity = similarity_details m, details_ayurveda_text = ayurveda_text m,
            details_icd11_text = icd11_text m \<rparr>"
  by (simp_all add: new_row_def params_of_def)

lemma params_of_confidence: "params_of (m\<lparr>confidence := tier\<rparr>) = params_of m"
  by (simp add: params_of_def)

lemma save_rows_origin:
  assumes "r \<in> set (rows (snd (saveMappingToDatabase w m ow)))"
  shows "r \<in> set (rows w) \<or> (\<exists>n. r = new_row n (params_of m))"
  using assms by (cases rule: saveMappingToDatabase_cases [of w m ow]) auto

lemma save_all_rows_origin:
  assumes "r \<in> set (rows (snd (save_all ow ms w)))"
  shows "r \<in> set (rows w) \<or> (\<exists>m \<in> set ms. \<exists>n. r = new_row n (params_of m))"
  using assms
proof (induction ms arbitrary: w)
  case Nil
  then show ?case by simp
next
  case (Cons m ms)
  obtain res w' where s: "saveMappingToDatabase w m ow = (res, w')"
    by (cases "saveMappingToDatabase w m ow")
  have step: "x \<in> set (rows w') \<Longrightarrow> x \<in> set (rows w) \<or> (\<exists>n. x = new_row n (params_of m))" for x
    using save_rows_origin [of x w m ow] s by simp
  show ?case
  proof (cases res)
    case (Inl err)
    then show ?thesis using Cons.prems s step by auto
  next
    case (Inr u)
    then have "r \<in> set (rows (snd (save_all ow ms w')))" using Cons.prems s by simp
    from Cons.IH [OF this] show ?thesis using step by auto
  qed
qed

lemma batch_matches_tiers:
  assumes "m \<in> set (batch_matches fz cs ts opts)"
  shows "(confidence m = ''high'' \<or> confidence m = ''medium'')
    \<and> \<not> (confidence m = ''high'' \<and> confidence m = ''medium'')"
proof -
  from assms obtain c mr where "m \<in> set (findBestMatches fz c ts mr)"
    by (auto simp: batch_matches_def)
  then have m: "m \<in> set (collect_matches fz c ts)" using set_findBestMatches by blast
  show ?thesis
    using collect_matches_props(1) [OF m] collect_matches_props(3) [OF m]
    by (simp add: getConfidenceLevel_def)
qed

lemma findBestMatches_no_targets: "findBestMatches fz c [] mr = []"
  by (simp add: findBestMatches_def collect_matches_def js_sort_def slice0_def Let_def)

lemma batch_matches_no_targets: "batch_matches fz cs [] opts = []"
  by (induction cs) (simp_all add: batch_matches_def findBestMatches_no_targets)

lemma sample_run_three:
  "findBestMatches exact_fuzz sample_source sample_targets (Some 3) = [match_sm10, match_sm11]"
  by (simp add: findBestMatches_def collect_matches_def sample_texts sample_scores threshold_facts
      js_sort_def by_score_desc_equal slice0_def Let_def)

lemma sample_batch:
  "batch_matches exact_fuzz [sample_source] sample_targets default_options =
     [match_sm10, match_sm11]"
  "batch_matches exact_fuzz [sample_source, sample_source] sample_targets default_options =
     [match_sm10, match_sm11, match_sm10, match_sm11]"
  by (simp_all add: batch_matches_def default_options_def sample_run_three)

lemmas save_eval = saveMappingToDatabase_def insert_mapping_def Let_def empty_world_def
  params_of_simps sample_match_fields next_id_def col_id_new_row pair_of_new_row eval_nat_numeral

lemma sample_save_first:
  "saveMappingToDatabase (empty_world\<lparr>faults := fs\<rparr>) match_sm10 ow =
    (case fs of
       Some msg # fs' \<Rightarrow>
         (Inl (SqliteError msg), empty_world\<lparr>faults := fs', console := [ErrorSavingMapping msg]\<rparr>)
     | _ \<Rightarrow>
         (Inr (), \<lparr> rows = [new_row 1 (params_of match_sm10)], sequence = 1, faults = tl fs,
                   console = [] \<rparr>))"
  by (auto simp: save_eval split: list.splits option.splits)

lemma sample_save_second:
  "saveMappingToDatabase
     \<lparr> rows = [new_row 1 (params_of match_sm10)], sequence = 1, faults = fs, console = [] \<rparr>
     match_sm11 False =
    (case fs of
       Some msg # fs' \<Rightarrow>
         (Inl (SqliteError msg),
          \<lparr> rows = [new_row 1 (params_of match_sm10)], sequence = 1, faults = fs',
            console = [ErrorSavingMapping msg] \<rparr>)
     | _ \<Rightarrow>
         (Inr (), \<lparr> rows = [new_row 1 (params_of match_sm10), new_row 2 (params_of match_sm11)],
                   sequence = 2, faults = tl fs, console = [] \<rparr>))"
  by (auto simp: save_eval split: list.splits option.splits)

lemma sample_save_again:
  "saveMappingToDatabase
     \<lparr> rows = [new_row 1 (params_of match_sm10), new_row 2 (params_of match_sm11)],
       sequence = 2, faults = [], console = [] \<rparr> match_sm10 False =
    (Inr (), \<lparr> rows = [new_row 1 (params_of match_sm10), new_row 2 (params_of match_sm11)],
              sequence = 2, faults = [], console = [] \<rparr>)"
  "saveMappingToDatabase
     \<lparr> rows = [new_row 1 (params_of match_sm10), new_row 2 (params_of match_sm11)],
       sequence = 2, faults = [], console = [] \<rparr> match_sm11 False =
    (Inr (), \<lparr> rows = [new_row 1 (params_of match_sm10), new_row 2 (params_of match_sm11)],
              sequence = 2, faults = [], console = [] \<rparr>)"
  "saveMappingToDatabase
     \<lparr> rows = [new_row 1 (params_of match_sm10), new_row 2 (params_of match_sm11)],
       sequence = 2, faults = [], console = [] \<rparr> match_sm10 True =
    (Inr (), \<lparr> rows = [new_row 2 (params_of match_sm11), new_row 3 (params_of match_sm10)],
              sequence = 3, faults = [], console = [] \<rparr>)"
  by (simp_all add: save_eval)

lemma generateMappings_default:
  "generateMappings fz w cs ts default_options =
     (case save_all False (batch_matches fz cs ts default_options) w of
        (Inl err, w') \<Rightarrow> (Inl err, w')
      | (Inr u, w') \<Rightarrow> (Inr (summarize (batch_matches fz cs ts default_options)), w'))"
  using generateMappings_save [of default_options fz w cs ts] by (simp add: default_options_def)

lemma sample_save_all:
  "save_all False [match_sm10, match_sm11] empty_world =
     (Inr (), \<lparr> rows = [new_row 1 (params_of match_sm10), new_row 2 (params_of match_sm11)],
               sequence = 2, faults = [], console = [] \<rparr>)"
  using sample_save_first [of "[]" False] sample_save_second [of "[]"]
  by (simp add: empty_world_def eval_nat_numeral)

lemma sample_generate:
  "generateMappings exact_fuzz empty_world [sample_source] sample_targets default_options =
     (Inr (summarize [match_sm10, match_sm11]),
      \<lparr> rows = [new_row 1 (params_of match_sm10), new_row 2 (params_of match_sm11)],
        sequence = 2, faults = [], console = [] \<rparr>)"
  by (simp add: generateMappings_default sample_batch sample_save_all del: save_all.simps)

lemma sample_generate_again:
  "generateMappings exact_fuzz
     \<lparr> rows = [new_row 1 (params_of match_sm10), new_row 2 (params_of match_sm11)],
       sequence = 2, faults = [], console = [] \<rparr> [sample_source] sample_targets default_options =
     (Inr (summarize [match_sm10, match_sm11]),
      \<lparr> rows = [new_row 1 (params_of match_sm10), new_row 2 (params_of match_sm11)],
        sequence = 2, faults = [], console = [] \<rparr>)"
  using sample_save_again(1,2)
  by (simp add: generateMappings_default sample_batch eval_nat_numeral)

lemma sample_generate_fault:
  "generateMappings exact_fuzz (empty_world\<lparr>faults := [Some disk_error]\<rparr>)
     [sample_source, sample_source] sample_targets default_options =
     (Inl (SqliteError disk_error),
      empty_world\<lparr>faults := [], console := [ErrorSavingMapping disk_error]\<rparr>)"
  by (simp add: generateMappings_default sample_batch sample_save_first)

text \<open>
  A batch of two source codes with two matches each and \<open>saveToDatabase\<close> left at its
  default \<open>true\<close>; the storage engine fails on the first statement only. The run does not
  continue: it ends with the error, returns no result, and none of the three remaining
  mappings is stored.
\<close>

theorem generateMappings_abort_counterexample:
  "saveToDatabase default_options \<noteq> Some False
   \<and> batch_matches exact_fuzz [sample_source, sample_source] sample_targets default_options =
        [match_sm10, match_sm11, match_sm10, match_sm11]
   \<and> generateMappings exact_fuzz (empty_world\<lparr>faults := [Some disk_error]\<rparr>)
        [sample_source, sample_source] sample_targets default_options =
      (Inl (SqliteError disk_error),
       \<lparr> rows = [], sequence = 0, faults = [], console = [ErrorSavingMapping disk_error] \<rparr>)"
  using sample_generate_fault sample_batch(2) by (simp add: default_options_def empty_world_def)

text \<open>
  Claim C1, amended. With \<open>saveToDatabase\<close> on, when the mappings before some mapping of
  the batch are saved and the save of that mapping fails, the failure is logged and
  \<open>generateMappings\<close> ends with that error: the table is as it was before the failed save,
  the mappings and source codes after it are not processed, and no result is returned.
  When no save of the batch fails, the run returns its result.
\<close>

theorem generateMappings_stops_at_failed_save:
  "(saveToDatabase opts \<noteq> Some False
      \<and> ow = (case overwriteExisting opts of None \<Rightarrow> False | Some b \<Rightarrow> b)
      \<and> batch_matches fz cs ts opts = pre @ m # post
      \<and> save_all ow pre w = (Inr (), w1)
      \<and> saveMappingToDatabase w1 m ow = (Inl err, w2)
    \<longrightarrow> generateMappings fz w cs ts opts = (Inl err, w2)
        \<and> rows w2 = rows w1
        \<and> console w2 = console w1 @ [ErrorSavingMapping (message err)])
   \<and> (saveToDatabase opts \<noteq> Some False
      \<and> save_all (case overwriteExisting opts of None \<Rightarrow> False | Some b \<Rightarrow> b)
            (batch_matches fz cs ts opts) w = (Inr (), w')
    \<longrightarrow> generateMappings fz w cs ts opts =
          (Inr (summarize (batch_matches fz cs ts opts)), w'))"
proof (intro conjI impI)
  assume a: "saveToDatabase opts \<noteq> Some False
      \<and> ow = (case overwriteExisting opts of None \<Rightarrow> False | Some b \<Rightarrow> b)
      \<and> batch_matches fz cs ts opts = pre @ m # post
      \<and> save_all ow pre w = (Inr (), w1)
      \<and> saveMappingToDatabase w1 m ow = (Inl err, w2)"
  then have save: "saveToDatabase opts \<noteq> Some False"
    and ow: "ow = (case overwriteExisting opts of None \<Rightarrow> False | Some b \<Rightarrow> b)"
    and batch: "batch_matches fz cs ts opts = pre @ m # post"
    and s1: "save_all ow pre w = (Inr (), w1)"
    and s2: "saveMappingToDatabase w1 m ow = (Inl err, w2)"
    by blast+
  have "save_all ow (pre @ m # post) w = (Inl err, w2)"
    by (simp add: save_all_append s1 s2)
  then show "generateMappings fz w cs ts opts = (Inl err, w2)"
    by (simp add: generateMappings_save [OF save] ow [symmetric] batch del: save_all.simps)
  show "rows w2 = rows w1"
    by (rule save_failure(1) [OF s2])
  show "console w2 = console w1 @ [ErrorSavingMapping (message err)]"
    by (rule save_failure(2) [OF s2])
next
  assume "saveToDatabase opts \<noteq> Some False
      \<and> save_all (case overwriteExisting opts of None \<Rightarrow> False | Some b \<Rightarrow> b)
            (batch_matches fz cs ts opts) w = (Inr (), w')"
  then show "generateMappings fz w cs ts opts =
          (Inr (summarize (batch_matches fz cs ts opts)), w')"
    by (simp add: generateMappings_save)
qed

theorem generateMappings_stops_at_failed_save_witness:
  "saveToDatabase default_options \<noteq> Some False
   \<and> batch_matches exact_fuzz [sample_source, sample_source] sample_targets default_options =
        [match_sm10] @ match_sm11 # [match_sm10, match_sm11]
   \<and> save_all False [match_sm10] (empty_world\<lparr>faults := [None, Some disk_error]\<rparr>) =
        (Inr (), \<lparr> rows = [new_row 1 (params_of match_sm10)], sequence = 1,
                  faults = [Some disk_error], console = [] \<rparr>)
   \<and> saveMappingToDatabase
        \<lparr> rows = [new_row 1 (params_of match_sm10)], sequence = 1,
          faults = [Some disk_error], console = [] \<rparr> match_sm11 False =
        (Inl (SqliteError disk_error),
         \<lparr> rows = [new_row 1 (params_of match_sm10)], sequence = 1, faults = [],
           console = [ErrorSavingMapping disk_error] \<rparr>)
   \<and> generateMappings exact_fuzz (empty_world\<lparr>faults := [None, Some disk_error]\<rparr>)
        [sample_source, sample_source] sample_targets default_options =
        (Inl (SqliteError disk_error),
         \<lparr> rows = [new_row 1 (params_of match_sm10)], sequence = 1, faults = [],
           console = [ErrorSavingMapping disk_error] \<rparr>)
   \<and> save_all False (batch_matches exact_fuzz [sample_source] sample_targets default_options)
        empty_world =
        (Inr (), \<lparr> rows = [new_row 1 (params_of match_sm10), new_row 2 (params_of match_sm11)],
                  sequence = 2, faults = [], console = [] \<rparr>)
   \<and> generateMappings exact_fuzz empty_world [sample_source] sample_targets default_options =
        (Inr (summarize (batch_matches exact_fuzz [sample_source] sample_targets default_options)),
         \<lparr> rows = [new_row 1 (params_of match_sm10), new_row 2 (params_of match_sm11)],
           sequence = 2, faults = [], console = [] \<rparr>)"
proof -
  define w1 where "w1 = \<lparr> rows = [new_row 1 (params_of match_sm10)], sequence = 1,
    faults = [Some disk_error], console = [] \<rparr>"
  define w2 where "w2 = \<lparr> rows = [new_row 1 (params_of match_sm10)], sequence = 1,
    faults = [], console = [ErrorSavingMapping disk_error] \<rparr>"
  define w3 where "w3 = \<lparr> rows = [new_row 1 (params_of match_sm10), new_row 2 (params_of match_sm11)],
    sequence = 2, faults = [], console = [] \<rparr>"
  have h1: "saveToDatabase default_options \<noteq> Some False"
    and h2: "False = (case overwriteExisting default_options of None \<Rightarrow> False | Some b \<Rightarrow> b)"
    by (simp_all add: default_options_def)
  have h3: "batch_matches exact_fuzz [sample_source, sample_source] sample_targets default_options =
      [match_sm10] @ match_sm11 # [match_sm10, match_sm11]"
    by (simp add: sample_batch)
  have h4: "save_all False [match_sm10] (empty_world\<lparr>faults := [None, Some disk_error]\<rparr>) = (Inr (), w1)"
    using sample_save_first [of "[None, Some disk_error]" False] by (simp add: w1_def)
  have h5: "saveMappingToDatabase w1 match_sm11 False = (Inl (SqliteError disk_error), w2)"
    using sample_save_second [of "[Some disk_error]"] by (simp add: w1_def w2_def)
  have h6: "save_all False (batch_matches exact_fuzz [sample_source] sample_targets default_options)
      empty_world = (Inr (), w3)"
    using sample_save_all by (simp add: sample_batch w3_def del: save_all.simps)
  have h6': "save_all (case overwriteExisting default_options of None \<Rightarrow> False | Some b \<Rightarrow> b)
        (batch_matches exact_fuzz [sample_source] sample_targets default_options) empty_world = (Inr (), w3)"
    using h6 h2 by simp
  have c1: "generateMappings exact_fuzz (empty_world\<lparr>faults := [None, Some disk_error]\<rparr>)
        [sample_source, sample_source] sample_targets default_options = (Inl (SqliteError disk_error), w2)"
    using generateMappings_stops_at_failed_save
      [of default_options False exact_fuzz "[sample_source, sample_source]" sample_targets
        "[match_sm10]" match_sm11 "[match_sm10, match_sm11]"
        "empty_world\<lparr>faults := [None, Some disk_error]\<rparr>" w1 "SqliteError disk_error" w2]
      h1 h2 h3 h4 h5 by blast
  have c2: "generateMappings exact_fuzz empty_world [sample_source] sample_targets default_options =
        (Inr (summarize (batch_matches exact_fuzz [sample_source] sample_targets default_options)), w3)"
    using generateMappings_stops_at_failed_save
      [of default_options False exact_fuzz "[sample_source]" sample_targets
        "[]" match_sm10 "[]" empty_world w1 "SqliteError disk_error" w2 w3]
      h1 h6' by blast
  show ?thesis
    using h1 h3 h4 h5 h6 c1 c2 unfolding w1_def w2_def w3_def by (intro conjI)
qed

lemma save_replace_rows:
  assumes "saveMappingToDatabase w m True = (Inr u, w')"
  shows "rows w' = filter (\<lambda>old. pair_of old \<noteq> (the (ayurveda_code m), the (icd11_code m))) (rows w)
                     @ [new_row (next_id w) (params_of m)]"
  using assms by (cases rule: saveMappingToDatabase_cases [of w m True]) (auto simp: pair_of_new_row)

lemma save_ignore_existing:
  assumes "(the (ayurveda_code m), the (icd11_code m)) \<in> pair_of ` set (rows w)"
  shows "rows (snd (saveMappingToDatabase w m False)) = rows w"
  using assms by (cases rule: saveMappingToDatabase_cases [of w m False]) (auto simp: pair_of_new_row)

text \<open>
  Claim C6. A table without two rows for the same pair of codes stays so under a save with
  either value of \<open>overwriteExisting\<close>, under a run of \<open>generateMappings\<close>, and under a second
  run on the same inputs. A successful save with \<open>overwriteExisting = true\<close> leaves exactly
  the new row for the pair and does not touch the rows of other pairs; a save with
  \<open>overwriteExisting = false\<close> for a pair that is already stored leaves the rows as they are.
\<close>

theorem stored_pairs_stay_unique:
  "(unique_pairs (rows w) \<longrightarrow>
        unique_pairs (rows (snd (saveMappingToDatabase w m ow)))
      \<and> unique_pairs (rows (snd (generateMappings fz w cs ts opts)))
      \<and> unique_pairs (rows (snd (generateMappings fz (snd (generateMappings fz w cs ts opts))
            cs ts opts))))
   \<and> (saveMappingToDatabase w m True = (Inr (), w') \<longrightarrow>
        filter (\<lambda>r. pair_of r = (the (ayurveda_code m), the (icd11_code m))) (rows w') =
          [new_row (next_id w) (params_of m)]
      \<and> filter (\<lambda>r. pair_of r \<noteq> (the (ayurveda_code m), the (icd11_code m))) (rows w') =
          filter (\<lambda>r. pair_of r \<noteq> (the (ayurveda_code m), the (icd11_code m))) (rows w))
   \<and> ((the (ayurveda_code m), the (icd11_code m)) \<in> pair_of ` set (rows w) \<longrightarrow>
        rows (snd (saveMappingToDatabase w m False)) = rows w)"
proof (intro conjI impI)
  assume u: "unique_pairs (rows w)"
  show "unique_pairs (rows (snd (saveMappingToDatabase w m ow)))"
    by (rule save_unique_pairs [OF u])
  show first: "unique_pairs (rows (snd (generateMappings fz w cs ts opts)))"
    by (rule generateMappings_unique_pairs [OF u])
  show "unique_pairs (rows (snd (generateMappings fz (snd (generateMappings fz w cs ts opts))
            cs ts opts)))"
    by (rule generateMappings_unique_pairs [OF first])
next
  assume s: "saveMappingToDatabase w m True = (Inr (), w')"
  note r = save_replace_rows [OF s]
  show "filter (\<lambda>r. pair_of r = (the (ayurveda_code m), the (icd11_code m))) (rows w') =
          [new_row (next_id w) (params_of m)]"
    by (simp add: r pair_of_new_row)
  show "filter (\<lambda>r. pair_of r \<noteq> (the (ayurveda_code m), the (icd11_code m))) (rows w') =
          filter (\<lambda>r. pair_of r \<noteq> (the (ayurveda_code m), the (icd11_code m))) (rows w)"
    by (simp add: r pair_of_new_row)
next
  assume "(the (ayurveda_code m), the (icd11_code m)) \<in> pair_of ` set (rows w)"
  then show "rows (snd (saveMappingToDatabase w m False)) = rows w"
    by (rule save_ignore_existing)
qed

theorem stored_pairs_stay_unique_witness:
  "unique_pairs (rows empty_world)
   \<and> rows (snd (generateMappings exact_fuzz empty_world [sample_source] sample_targets
        default_options)) =
        [new_row 1 (params_of match_sm10), new_row 2 (params_of match_sm11)]
   \<and> rows (snd (generateMappings exact_fuzz
        (snd (generateMappings exact_fuzz empty_world [sample_source] sample_targets
           default_options))
        [sample_source] sample_targets default_options)) =
        [new_row 1 (params_of match_sm10), new_row 2 (params_of match_sm11)]
   \<and> unique_pairs [new_row 1 (params_of match_sm10), new_row 2 (params_of match_sm11)]
   \<and> saveMappingToDatabase
        \<lparr> rows = [new_row 1 (params_of match_sm10), new_row 2 (params_of match_sm11)],
          sequence = 2, faults = [], console = [] \<rparr> match_sm10 True =
        (Inr (), \<lparr> rows = [new_row 2 (params_of match_sm11), new_row 3 (params_of match_sm10)],
                  sequence = 3, faults = [], console = [] \<rparr>)
   \<and> filter (\<lambda>r. pair_of r = (''A'', ''SM10''))
        [new_row 2 (params_of match_sm11), new_row 3 (params_of match_sm10)] =
        [new_row 3 (params_of match_sm10)]
   \<and> (''A'', ''SM10'') \<in> pair_of `
        set [new_row 1 (params_of match_sm10), new_row 2 (params_of match_sm11)]
   \<and> rows (snd (saveMappingToDatabase
        \<lparr> rows = [new_row 1 (params_of match_sm10), new_row 2 (params_of match_sm11)],
          sequence = 2, faults = [], console = [] \<rparr> match_sm10 False)) =
        [new_row 1 (params_of match_sm10), new_row 2 (params_of match_sm11)]"
proof -
  define w2 where "w2 = \<lparr> rows = [new_row 1 (params_of match_sm10), new_row 2 (params_of match_sm11)],
    sequence = 2, faults = [], console = [] \<rparr>"
  define w3 where "w3 = \<lparr> rows = [new_row 2 (params_of match_sm11), new_row 3 (params_of match_sm10)],
    sequence = 3, faults = [], console = [] \<rparr>"
  have u0: "unique_pairs (rows empty_world)"
    by (simp add: unique_pairs_def empty_world_def)
  have g1: "generateMappings exact_fuzz empty_world [sample_source] sample_targets default_options =
      (Inr (summarize [match_sm10, match_sm11]), w2)"
    unfolding w2_def by (rule sample_generate)
  have g2: "generateMappings exact_fuzz w2 [sample_source] sample_targets default_options =
      (Inr (summarize [match_sm10, match_sm11]), w2)"
    unfolding w2_def by (rule sample_generate_again)
  have s3: "saveMappingToDatabase w2 match_sm10 True = (Inr (), w3)"
    unfolding w2_def w3_def by (rule sample_save_again(3))
  have codes: "the (ayurveda_code match_sm10) = ''A''" "the (icd11_code match_sm10) = ''SM10''"
    by (simp_all add: sample_match_fields)
  have mem: "(the (ayurveda_code match_sm10), the (icd11_code match_sm10)) \<in> pair_of ` set (rows w2)"
    by (simp add: w2_def pair_of_new_row)
  note inst1 = stored_pairs_stay_unique [of empty_world match_sm10 False exact_fuzz "[sample_source]"
      sample_targets default_options w3]
  note inst2 = stored_pairs_stay_unique [of w2 match_sm10 False exact_fuzz "[sample_source]"
      sample_targets default_options w3]
  have a: "unique_pairs (rows w2)"
    using inst1 u0 g1 by simp
  have b: "filter (\<lambda>r. pair_of r = (''A'', ''SM10'')) (rows w3) = [new_row (next_id w2) (params_of match_sm10)]"
    using inst2 s3 codes by simp
  have c: "rows (snd (saveMappingToDatabase w2 match_sm10 False)) = rows w2"
    using inst2 mem by blast
  have n: "next_id w2 = 3"
    by (simp add: w2_def next_id_def col_id_new_row)
  show ?thesis
    using u0 g1 g2 a b c s3 mem n codes unfolding w2_def w3_def
    by (simp del: save_all.simps)
qed

lemma summarize_partition:
  assumes "\<forall>m \<in> set ms. (confidence m = ''high'' \<or> confidence m = ''medium'')
             \<and> \<not> (confidence m = ''high'' \<and> confidence m = ''medium'')"
  shows "length (filter (\<lambda>m. confidence m = ''high'') ms)
       + length (filter (\<lambda>m. confidence m = ''medium'') ms) = length ms"
proof -
  have "filter (\<lambda>m. confidence m = ''medium'') ms = filter (\<lambda>m. \<not> confidence m = ''high'') ms"
    using assms by (intro filter_cong) auto
  then show ?thesis by (simp add: sum_length_filter_compl)
qed

text \<open>
  Claim C9. When \<open>generateMappings\<close> returns, \<open>all\<close> is the list of the matches of the
  batch, \<open>high\<close> and \<open>medium\<close> are its entries of the tier \<open>high\<close> and of the tier \<open>medium\<close>,
  every entry is in exactly one of the two, and the three fields of \<open>stats\<close> are the lengths
  of the three lists. With no target, the run returns the empty result with all counts 0
  and leaves the table, the storage engine and the console untouched: nothing is saved.
\<close>

theorem generateMappings_aggregation:
  "(generateMappings fz w cs ts opts = (Inr r, w') \<longrightarrow>
       all r = batch_matches fz cs ts opts
     \<and> high r = filter (\<lambda>m. confidence m = ''high'') (all r)
     \<and> medium r = filter (\<lambda>m. confidence m = ''medium'') (all r)
     \<and> (\<forall>m \<in> set (all r). confidence m = ''high'' \<or> confidence m = ''medium'')
     \<and> set (high r) \<inter> set (medium r) = {}
     \<and> set (high r) \<union> set (medium r) = set (all r)
     \<and> length (high r) + length (medium r) = length (all r)
     \<and> total (stats r) = length (all r)
     \<and> highConfidence (stats r) = length (high r)
     \<and> mediumConfidence (stats r) = length (medium r))
   \<and> generateMappings fz w cs [] opts =
       (Inr \<lparr> all = [], high = [], medium = [],
              stats = \<lparr> total = 0, highConfidence = 0, mediumConfidence = 0 \<rparr> \<rparr>, w)"
proof (intro conjI impI)
  assume g: "generateMappings fz w cs ts opts = (Inr r, w')"
  have r: "r = summarize (batch_matches fz cs ts opts)"
    by (rule generateMappings_result [OF g])
  have tiers: "\<forall>m \<in> set (all r). (confidence m = ''high'' \<or> confidence m = ''medium'')
             \<and> \<not> (confidence m = ''high'' \<and> confidence m = ''medium'')"
    using batch_matches_tiers [of _ fz cs ts opts] by (simp add: r summarize_def Let_def)
  show "all r = batch_matches fz cs ts opts"
    by (simp add: r summarize_def Let_def)
  show h: "high r = filter (\<lambda>m. confidence m = ''high'') (all r)"
    by (simp add: r summarize_def Let_def)
  show m: "medium r = filter (\<lambda>m. confidence m = ''medium'') (all r)"
    by (simp add: r summarize_def Let_def)
  show "\<forall>m \<in> set (all r). confidence m = ''high'' \<or> confidence m = ''medium''"
    using tiers by blast
  show "set (high r) \<inter> set (medium r) = {}"
    unfolding h m by auto
  show "set (high r) \<union> set (medium r) = set (all r)"
    unfolding h m using tiers by auto
  show "length (high r) + length (medium r) = length (all r)"
    unfolding h m by (rule summarize_partition [OF tiers])
  show "total (stats r) = length (all r)"
    by (simp add: r summarize_def Let_def)
  show "highConfidence (stats r) = length (high r)"
    by (simp add: r summarize_def Let_def)
  show "mediumConfidence (stats r) = length (medium r)"
    by (simp add: r summarize_def Let_def)
next
  show "generateMappings fz w cs [] opts =
       (Inr \<lparr> all = [], high = [], medium = [],
              stats = \<lparr> total = 0, highConfidence = 0, mediumConfidence = 0 \<rparr> \<rparr>, w)"
  proof (cases "saveToDatabase opts = Some False")
    case True
    then show ?thesis
      by (simp add: generateMappings_no_save batch_matches_no_targets summarize_def)
  next
    case False
    then show ?thesis
      by (simp add: generateMappings_save batch_matches_no_targets summarize_def)
  qed
qed

lemma sample_summary:
  "summarize [match_sm10, match_sm11] =
     \<lparr> all = [match_sm10, match_sm11], high = [match_sm10, match_sm11], medium = [],
       stats = \<lparr> total = 2, highConfidence = 2, mediumConfidence = 0 \<rparr> \<rparr>"
  by (simp add: summarize_def Let_def sample_match_fields)

theorem generateMappings_aggregation_witness:
  "generateMappings exact_fuzz empty_world [sample_source] sample_targets default_options =
     (Inr \<lparr> all = [match_sm10, match_sm11], high = [match_sm10, match_sm11], medium = [],
            stats = \<lparr> total = 2, highConfidence = 2, mediumConfidence = 0 \<rparr> \<rparr>,
      \<lparr> rows = [new_row 1 (params_of match_sm10), new_row 2 (params_of match_sm11)],
        sequence = 2, faults = [], console = [] \<rparr>)
   \<and> batch_matches exact_fuzz [sample_source] sample_targets default_options =
        [match_sm10, match_sm11]
   \<and> [match_sm10, match_sm11] = filter (\<lambda>m. confidence m = ''high'') [match_sm10, match_sm11]
   \<and> [] = filter (\<lambda>m. confidence m = ''medium'') [match_sm10, match_sm11]
   \<and> length [match_sm10, match_sm11] + length ([] :: match list) = length [match_sm10, match_sm11]
   \<and> generateMappings exact_fuzz (empty_world\<lparr>faults := [Some disk_error]\<rparr>)
        [sample_source, sample_source] [] default_options =
       (Inr \<lparr> all = [], high = [], medium = [],
              stats = \<lparr> total = 0, highConfidence = 0, mediumConfidence = 0 \<rparr> \<rparr>,
        empty_world\<lparr>faults := [Some disk_error]\<rparr>)"
proof -
  define r where "r = \<lparr> all = [match_sm10, match_sm11], high = [match_sm10, match_sm11],
    medium = [], stats = \<lparr> total = 2, highConfidence = 2, mediumConfidence = 0 \<rparr> \<rparr>"
  define w' where "w' = \<lparr> rows = [new_row 1 (params_of match_sm10),
    new_row 2 (params_of match_sm11)], sequence = 2, faults = [], console = [] \<rparr>"
  have g: "generateMappings exact_fuzz empty_world [sample_source] sample_targets default_options =
      (Inr r, w')"
    using sample_generate by (simp only: sample_summary r_def w'_def)
  note inst = generateMappings_aggregation [of exact_fuzz empty_world "[sample_source]"
      sample_targets default_options r w']
  from inst g have a: "all r = batch_matches exact_fuzz [sample_source] sample_targets default_options"
    and h: "high r = filter (\<lambda>m. confidence m = ''high'') (all r)"
    and m: "medium r = filter (\<lambda>m. confidence m = ''medium'') (all r)"
    and l: "length (high r) + length (medium r) = length (all r)"
    by blast+
  have e: "generateMappings exact_fuzz (empty_world\<lparr>faults := [Some disk_error]\<rparr>)
        [sample_source, sample_source] [] default_options =
       (Inr \<lparr> all = [], high = [], medium = [],
              stats = \<lparr> total = 0, highConfidence = 0, mediumConfidence = 0 \<rparr> \<rparr>,
        empty_world\<lparr>faults := [Some disk_error]\<rparr>)"
    using generateMappings_aggregation [of exact_fuzz "empty_world\<lparr>faults := [Some disk_error]\<rparr>"
      "[sample_source, sample_source]" "[]" default_options] by blast
  have fields: "all r = [match_sm10, match_sm11]" "high r = [match_sm10, match_sm11]" "medium r = []"
    by (simp_all add: r_def)
  show ?thesis
    using g a [symmetric] h m l e unfolding fields unfolding r_def w'_def by (intro conjI)
qed

lemma save_all_rows_columns:
  assumes "r \<in> set (rows (snd (save_all ow ms w)))"
  shows "r \<in> set (rows w) \<or>
    (\<exists>m \<in> set ms.
        col_namaste_code r = the (ayurveda_code m) \<and> col_icd11_code r = the (icd11_code m)
      \<and> col_equivalence r = Some ''equivalent'' \<and> col_mapping_type r = Some ''automatic''
      \<and> col_confidence r = Some (similarity_score m)
      \<and> col_similarity_score r = Some (similarity_score m)
      \<and> col_mapping_details r =
          Some \<lparr> details_similarity = similarity_details m,
                 details_ayurveda_text = ayurveda_text m,
                 details_icd11_text = icd11_text m \<rparr>)"
  using save_all_rows_origin [OF assms] by (auto simp: new_row_columns)

text \<open>
  Claim C10. Every row found in the table after a run of \<open>generateMappings\<close> was there before
  or belongs to a match of the batch, with \<open>equivalent\<close> as its equivalence, \<open>automatic\<close> as
  its mapping type and the composite score of the match in both \<open>confidence\<close> and
  \<open>similarity_score\<close>. A save does not depend on the tier of the mapping: the tier is
  never written.
\<close>

theorem persisted_row_contents:
  "(\<forall>r \<in> set (rows (snd (generateMappings fz w cs ts opts))).
      r \<in> set (rows w) \<or>
      (\<exists>m \<in> set (batch_matches fz cs ts opts).
          col_namaste_code r = the (ayurveda_code m) \<and> col_icd11_code r = the (icd11_code m)
        \<and> col_equivalence r = Some ''equivalent'' \<and> col_mapping_type r = Some ''automatic''
        \<and> col_confidence r = Some (similarity_score m)
        \<and> col_similarity_score r = Some (similarity_score m)
        \<and> col_mapping_details r =
            Some \<lparr> details_similarity = similarity_details m,
                   details_ayurveda_text = ayurveda_text m,
                   details_icd11_text = icd11_text m \<rparr>))
   \<and> saveMappingToDatabase w (m\<lparr>confidence := tier\<rparr>) ow = saveMappingToDatabase w m ow"
proof (intro conjI ballI)
  fix r
  assume r: "r \<in> set (rows (snd (generateMappings fz w cs ts opts)))"
  show "r \<in> set (rows w) \<or>
      (\<exists>m \<in> set (batch_matches fz cs ts opts).
          col_namaste_code r = the (ayurveda_code m) \<and> col_icd11_code r = the (icd11_code m)
        \<and> col_equivalence r = Some ''equivalent'' \<and> col_mapping_type r = Some ''automatic''
        \<and> col_confidence r = Some (similarity_score m)
        \<and> col_similarity_score r = Some (similarity_score m)
        \<and> col_mapping_details r =
            Some \<lparr> details_similarity = similarity_details m,
                   details_ayurveda_text = ayurveda_text m,
                   details_icd11_text = icd11_text m \<rparr>)"
  proof (cases "saveToDatabase opts = Some False")
    case True
    then show ?thesis using r by (simp add: generateMappings_no_save)
  next
    case False
    define ow' where "ow' = (case overwriteExisting opts of None \<Rightarrow> False | Some b \<Rightarrow> b)"
    have "snd (generateMappings fz w cs ts opts) = snd (save_all ow' (batch_matches fz cs ts opts) w)"
      using False by (simp add: generateMappings_save ow'_def split: prod.splits sum.splits)
    then have "r \<in> set (rows (snd (save_all ow' (batch_matches fz cs ts opts) w)))"
      using r by simp
    then show ?thesis by (rule save_all_rows_columns)
  qed
next
  show "saveMappingToDatabase w (m\<lparr>confidence := tier\<rparr>) ow = saveMappingToDatabase w m ow"
    by (simp add: saveMappingToDatabase_def params_of_confidence)
qed

theorem persisted_row_contents_witness:
  "rows (snd (generateMappings exact_fuzz empty_world [sample_source] sample_targets
      default_options)) =
      [new_row 1 (params_of match_sm10), new_row 2 (params_of match_sm11)]
   \<and> rows empty_world = []
   \<and> batch_matches exact_fuzz [sample_source] sample_targets default_options =
        [match_sm10, match_sm11]
   \<and> confidence match_sm10 = ''high''
   \<and> col_equivalence (new_row 1 (params_of match_sm10)) = Some ''equivalent''
   \<and> col_mapping_type (new_row 1 (params_of match_sm10)) = Some ''automatic''
   \<and> col_confidence (new_row 1 (params_of match_sm10)) = Some 1
   \<and> col_similarity_score (new_row 1 (params_of match_sm10)) = Some 1
   \<and> (\<exists>m \<in> set [match_sm10, match_sm11].
          col_namaste_code (new_row 2 (params_of match_sm11)) = the (ayurveda_code m)
        \<and> col_icd11_code (new_row 2 (params_of match_sm11)) = the (icd11_code m)
        \<and> col_equivalence (new_row 2 (params_of match_sm11)) = Some ''equivalent''
        \<and> col_mapping_type (new_row 2 (params_of match_sm11)) = Some ''automatic''
        \<and> col_confidence (new_row 2 (params_of match_sm11)) = Some (similarity_score m)
        \<and> col_similarity_score (new_row 2 (params_of match_sm11)) = Some (similarity_score m))
   \<and> saveMappingToDatabase empty_world (match_sm10\<lparr>confidence := ''medium''\<rparr>) False =
       saveMappingToDatabase empty_world match_sm10 False"
proof -
  have run: "rows (snd (generateMappings exact_fuzz empty_world [sample_source] sample_targets
      default_options)) = [new_row 1 (params_of match_sm10), new_row 2 (params_of match_sm11)]"
    by (simp add: sample_generate)
  have none: "rows empty_world = []"
    by (simp add: empty_world_def)
  have cols: "col_equivalence (new_row 1 (params_of match_sm10)) = Some ''equivalent''"
    "col_mapping_type (new_row 1 (params_of match_sm10)) = Some ''automatic''"
    "col_confidence (new_row 1 (params_of match_sm10)) = Some 1"
    "col_similarity_score (new_row 1 (params_of match_sm10)) = Some 1"
    by (simp_all add: new_row_columns sample_scores)
  note inst = persisted_row_contents [where fz = exact_fuzz and w = empty_world
      and cs = "[sample_source]" and ts = sample_targets and opts = default_options
      and m = match_sm10 and tier = "''medium''" and ow = False]
  from inst have all_rows: "\<forall>r \<in> set [new_row 1 (params_of match_sm10), new_row 2 (params_of match_sm11)].
        \<exists>m \<in> set [match_sm10, match_sm11].
          col_namaste_code r = the (ayurveda_code m) \<and> col_icd11_code r = the (icd11_code m)
        \<and> col_equivalence r = Some ''equivalent'' \<and> col_mapping_type r = Some ''automatic''
        \<and> col_confidence r = Some (similarity_score m)
        \<and> col_similarity_score r = Some (similarity_score m)
        \<and> col_mapping_details r =
            Some \<lparr> details_similarity = similarity_details m,
                   details_ayurveda_text = ayurveda_text m,
                   details_icd11_text = icd11_text m \<rparr>"
    unfolding run none sample_batch(1) by simp
  then have second: "\<exists>m \<in> set [match_sm10, match_sm11].
          col_namaste_code (new_row 2 (params_of match_sm11)) = the (ayurveda_code m)
        \<and> col_icd11_code (new_row 2 (params_of match_sm11)) = the (icd11_code m)
        \<and> col_equivalence (new_row 2 (params_of match_sm11)) = Some ''equivalent''
        \<and> col_mapping_type (new_row 2 (params_of match_sm11)) = Some ''automatic''
        \<and> col_confidence (new_row 2 (params_of match_sm11)) = Some (similarity_score m)
        \<and> col_similarity_score (new_row 2 (params_of match_sm11)) = Some (similarity_score m)"
    by fastforce
  from inst have tier: "saveMappingToDatabase empty_world (match_sm10\<lparr>confidence := ''medium''\<rparr>) False =
       saveMappingToDatabase empty_world match_sm10 False"
    by blast
  show ?thesis
    using run none sample_batch(1) sample_match_fields(5) cols second tier by (intro conjI)
qed

end
